theory Spec2Isabelle
  imports Complex_Main
begin

section \<open>OpsPilot: import reconciliation, API client and table pagination\<close>

text \<open>
  A shallow embedding of the parts of the OpsPilot web client that the specification speaks
  about: the pagination helpers (\<^verbatim>\<open>components/table-pagination.tsx\<close>), the error
  normaliser (\<^verbatim>\<open>lib/utils.ts\<close>), the API client (\<^verbatim>\<open>lib/api/client.ts\<close>) and the
  parse / review / commit flow of the inventory import (\<^verbatim>\<open>app/app/page.tsx\<close>), together
  with a model of the server-side commit reconciler and duplicate suggester, which the
  repository's web sources only call.

  Conventions: JavaScript numbers that hold counts, page numbers, identifiers and HTTP
  status codes are \<open>int\<close>; quantities, prices and scores are \<open>rat\<close>; strings are
  \<open>string\<close>; \<open>null\<close> and \<open>undefined\<close> in a typed optional field are \<open>None\<close>; a thrown
  exception is the \<open>Inl\<close> branch of a sum.
\<close>

subsection \<open>Pagination helpers\<close>

text \<open>
  \<^verbatim>\<open>getTotalPages(totalItems, pageSize) = Math.max(1, Math.ceil(totalItems / Math.max(1, pageSize)))\<close>.
  The quotient is taken in the rationals and rounded up, as \<^verbatim>\<open>Math.ceil\<close> does.
\<close>

definition getTotalPages :: "int \<Rightarrow> int \<Rightarrow> int" where
  "getTotalPages totalItems pageSize =
     max 1 \<lceil>(of_int totalItems :: rat) / of_int (max 1 pageSize)\<rceil>"

text \<open>
  \<^verbatim>\<open>Array.prototype.slice(start, end)\<close> for integer arguments: a negative index counts
  from the end of the array, and both indices are clamped to the array.
\<close>

definition slice :: "'a list \<Rightarrow> int \<Rightarrow> int \<Rightarrow> 'a list" where
  "slice xs start fin =
     (let len = int (length xs);
          k = (if start < 0 then max (len + start) 0 else min start len);
          final = (if fin < 0 then max (len + fin) 0 else min fin len)
      in take (nat (final - k)) (drop (nat k) xs))"

definition paginateItems :: "'a list \<Rightarrow> int \<Rightarrow> int \<Rightarrow> 'a list" where
  "paginateItems items page pageSize =
     (let safePage = max 1 page;
          safeSize = max 1 pageSize;
          start = (safePage - 1) * safeSize
      in slice items start (start + safeSize))"

subsection \<open>JavaScript values and the runtime functions the client calls\<close>

text \<open>
  Exceptions the client can raise or meet: its own \<^verbatim>\<open>ApiError(status, message)\<close>, the
  runtime's \<^verbatim>\<open>TypeError\<close> and \<^verbatim>\<open>SyntaxError\<close>, and a plain \<^verbatim>\<open>Error(message)\<close>.
\<close>

datatype error =
    ApiError int string
  | TypeError string
  | SyntaxError string
  | Error string

text \<open>
  The values an \<^verbatim>\<open>unknown\<close> argument can hold: what \<^verbatim>\<open>JSON.parse\<close> produces
  (null, booleans, numbers, strings, arrays, objects), \<^verbatim>\<open>undefined\<close>, and BigInt, the
  primitive that \<^verbatim>\<open>JSON.stringify\<close> refuses. Numbers are integers here. An object is the
  list of its own properties in enumeration order.
\<close>

datatype jsval =
    JUndefined
  | JNull
  | JBool bool
  | JNum int
  | JBigInt int
  | JStr string
  | JArr "jsval list"
  | JObj "(string \<times> jsval) list"

text \<open>\<^verbatim>\<open>ToBoolean\<close>, \<^verbatim>\<open>typeof\<close> and the read of a property (\<^verbatim>\<open>undefined\<close> when it is absent).\<close>

fun truthy :: "jsval \<Rightarrow> bool" where
  "truthy JUndefined = False"
| "truthy JNull = False"
| "truthy (JBool b) = b"
| "truthy (JNum n) = (n \<noteq> 0)"
| "truthy (JBigInt n) = (n \<noteq> 0)"
| "truthy (JStr s) = (s \<noteq> [])"
| "truthy (JArr xs) = True"
| "truthy (JObj ps) = True"

fun typeof :: "jsval \<Rightarrow> string" where
  "typeof JUndefined = ''undefined''"
| "typeof JNull = ''object''"
| "typeof (JBool b) = ''boolean''"
| "typeof (JNum n) = ''number''"
| "typeof (JBigInt n) = ''bigint''"
| "typeof (JStr s) = ''string''"
| "typeof (JArr xs) = ''object''"
| "typeof (JObj ps) = ''object''"

fun get_prop :: "jsval \<Rightarrow> string \<Rightarrow> jsval" where
  "get_prop (JObj ps) k = (case map_of ps k of Some v \<Rightarrow> v | None \<Rightarrow> JUndefined)"
| "get_prop v k = JUndefined"

text \<open>\<^verbatim>\<open>Array.prototype.join\<close> on an array of strings.\<close>

fun join :: "string \<Rightarrow> string list \<Rightarrow> string" where
  "join sep [] = []"
| "join sep [x] = x"
| "join sep (x # y # ys) = x @ sep @ join sep (y # ys)"

text \<open>Decimal rendering of an integer, as \<^verbatim>\<open>String(n)\<close> gives it.\<close>

fun digits :: "nat \<Rightarrow> string" where
  "digits n = (if n < 10 then [''0123456789'' ! n]
               else digits (n div 10) @ [''0123456789'' ! (n mod 10)])"

definition show_int :: "int \<Rightarrow> string" where
  "show_int n = (if n < 0 then CHR ''-'' # digits (nat (- n)) else digits (nat n))"

text \<open>
  \<^verbatim>\<open>QuoteJSONString\<close>: the double quote, the backslash and the control characters are
  escaped, every other character is kept.
\<close>

definition escape_char :: "char \<Rightarrow> string" where
  "escape_char c =
     (if c = CHR 0x22 then [CHR 0x5C, CHR 0x22]
      else if c = CHR 0x5C then [CHR 0x5C, CHR 0x5C]
      else if c = CHR 0x08 then [CHR 0x5C, CHR ''b'']
      else if c = CHR 0x0C then [CHR 0x5C, CHR ''f'']
      else if c = CHR 0x0A then [CHR 0x5C, CHR ''n'']
      else if c = CHR 0x0D then [CHR 0x5C, CHR ''r'']
      else if c = CHR 0x09 then [CHR 0x5C, CHR ''t'']
      else if (of_char c :: nat) < 32
        then [CHR 0x5C, CHR ''u'', CHR ''0'', CHR ''0'',
              ''0123456789abcdef'' ! (of_char c div 16),
              ''0123456789abcdef'' ! (of_char c mod 16)]
      else [c])"

definition quote :: "string \<Rightarrow> string" where
  "quote s = CHR 0x22 # concat (map escape_char s) @ [CHR 0x22]"

text \<open>
  Evaluating a callback over an array stops at the first exception: \<open>collect\<close> returns the
  first \<open>Inl\<close> of a list of results, or all the values.
\<close>

fun collect :: "(error + 'a) list \<Rightarrow> error + 'a list" where
  "collect [] = Inr []"
| "collect (x # xs) =
     (case x of
        Inl e \<Rightarrow> Inl e
      | Inr v \<Rightarrow> (case collect xs of Inl e \<Rightarrow> Inl e | Inr vs \<Rightarrow> Inr (v # vs)))"

text \<open>
  \<^verbatim>\<open>String(value)\<close>. An array is the comma-joined rendering of its elements, with
  \<^verbatim>\<open>null\<close> and \<^verbatim>\<open>undefined\<close> rendered empty.
\<close>

fun js_String :: "jsval \<Rightarrow> string" where
  "js_String JUndefined = ''undefined''"
| "js_String JNull = ''null''"
| "js_String (JBool b) = (if b then ''true'' else ''false'')"
| "js_String (JNum n) = show_int n"
| "js_String (JBigInt n) = show_int n"
| "js_String (JStr s) = s"
| "js_String (JArr xs) =
     join '','' (map (\<lambda>x. if x = JUndefined \<or> x = JNull then [] else js_String x) xs)"
| "js_String (JObj ps) = ''[object Object]''"

text \<open>
  \<^verbatim>\<open>JSON.stringify(value)\<close> for a value other than top-level \<^verbatim>\<open>undefined\<close> (the client
  only calls it on objects and arrays): \<^verbatim>\<open>undefined\<close> is \<^verbatim>\<open>null\<close> inside an array and is
  skipped as a property value; a BigInt throws a \<^verbatim>\<open>TypeError\<close>.
\<close>

fun JSON_stringify :: "jsval \<Rightarrow> error + string" where
  "JSON_stringify JUndefined = Inr ''null''"
| "JSON_stringify JNull = Inr ''null''"
| "JSON_stringify (JBool b) = Inr (if b then ''true'' else ''false'')"
| "JSON_stringify (JNum n) = Inr (show_int n)"
| "JSON_stringify (JBigInt n) = Inl (TypeError ''Do not know how to serialize a BigInt'')"
| "JSON_stringify (JStr s) = Inr (quote s)"
| "JSON_stringify (JArr xs) =
     (case collect (map JSON_stringify xs) of
        Inl e \<Rightarrow> Inl e
      | Inr ss \<Rightarrow> Inr (''['' @ join '','' ss @ '']''))"
| "JSON_stringify (JObj ps) =
     (case collect (map (\<lambda>p. case JSON_stringify (snd p) of
                                 Inl e \<Rightarrow> Inl e
                               | Inr s \<Rightarrow> Inr (quote (fst p) @ '':'' @ s))
                        (filter (\<lambda>p. snd p \<noteq> JUndefined) ps)) of
        Inl e \<Rightarrow> Inl e
      | Inr ss \<Rightarrow> Inr (''{'' @ join '','' ss @ ''}''))"

subsection \<open>\<^verbatim>\<open>normalizeErrorDetail\<close> (lib/utils.ts)\<close>

text \<open>
  The callback of \<^verbatim>\<open>detail.map(...)\<close>: a string part is kept; an object part gives its
  \<^verbatim>\<open>msg\<close> (or its JSON text when \<^verbatim>\<open>msg\<close> is not a string), prefixed by the dotted
  \<^verbatim>\<open>loc\<close> without the segment \<^verbatim>\<open>body\<close>; anything else goes through \<^verbatim>\<open>String\<close>.
\<close>

definition normalizePart :: "jsval \<Rightarrow> error + string" where
  "normalizePart part =
     (case part of
        JStr s \<Rightarrow> Inr s
      | _ \<Rightarrow>
        if truthy part \<and> typeof part = ''object'' then
          (case (case get_prop part ''msg'' of JStr m \<Rightarrow> Inr m | _ \<Rightarrow> JSON_stringify part) of
             Inl e \<Rightarrow> Inl e
           | Inr msg \<Rightarrow>
               let loc = (case get_prop part ''loc'' of
                            JArr segs \<Rightarrow>
                              join ''.'' (filter (\<lambda>segment. segment \<noteq> ''body'')
                                            (map js_String segs))
                          | _ \<Rightarrow> [])
               in Inr (if loc \<noteq> [] then loc @ '': '' @ msg else msg))
        else Inr (js_String part))"

definition normalizeErrorDetail :: "jsval \<Rightarrow> error + string" where
  "normalizeErrorDetail detail =
     (if \<not> truthy detail then Inr ''Request failed''
      else case detail of
        JArr parts \<Rightarrow>
          (case collect (map normalizePart parts) of
             Inl e \<Rightarrow> Inl e
           | Inr ss \<Rightarrow> Inr (join ''; '' ss))
      | _ \<Rightarrow> if typeof detail = ''object'' then JSON_stringify detail
             else Inr (js_String detail))"

text \<open>
  Vocabulary for the statements, with no counterpart in the code: the values that contain
  no BigInt, among them every value that \<^verbatim>\<open>JSON.parse\<close> can return, and \<^verbatim>\<open>undefined\<close>.
\<close>

fun serializable :: "jsval \<Rightarrow> bool" where
  "serializable (JBigInt n) = False"
| "serializable (JArr xs) = list_all serializable xs"
| "serializable (JObj ps) = list_all (\<lambda>p. serializable (snd p)) ps"
| "serializable v = True"

subsection \<open>The API client (lib/api/client.ts)\<close>

text \<open>
  A \<^verbatim>\<open>fetch\<close> response: its status, its body and whether the body has been read. The body
  is \<open>None\<close> for a null body, \<open>Json v\<close> for a text that parses to the value \<open>v\<close>, and
  \<open>Raw s\<close> for a text \<open>s\<close> that is not JSON. \<^verbatim>\<open>response.ok\<close> is a status in 200..299.
\<close>

datatype content = Json jsval | Raw string

record response =
  status :: int
  body :: "content option"
  bodyUsed :: bool

definition ok :: "response \<Rightarrow> bool" where
  "ok r = (200 \<le> status r \<and> status r \<le> 299)"

text \<open>
  Reading follows the Fetch standard: \<^verbatim>\<open>json()\<close> and \<^verbatim>\<open>text()\<close> both consume the body,
  and reading a body that is already consumed rejects with a \<^verbatim>\<open>TypeError\<close>; \<^verbatim>\<open>json()\<close>
  reads the whole text and then parses it, so a text that does not parse is consumed too.
\<close>

definition unusable :: "response \<Rightarrow> bool" where
  "unusable r = (body r \<noteq> None \<and> bodyUsed r)"

fun text_of :: "content \<Rightarrow> string" where
  "text_of (Raw s) = s"
| "text_of (Json v) = (case JSON_stringify v of Inr s \<Rightarrow> s | Inl e \<Rightarrow> [])"

fun JSON_parse :: "content \<Rightarrow> error + jsval" where
  "JSON_parse (Json v) = Inr v"
| "JSON_parse (Raw s) =
     Inl (SyntaxError (if s = [] then ''Unexpected end of JSON input'' else ''Unexpected token''))"

definition response_text :: "response \<Rightarrow> response \<times> (error + content)" where
  "response_text r =
     (if unusable r then (r, Inl (TypeError ''body stream already read''))
      else case body r of
        None \<Rightarrow> (r, Inr (Raw []))
      | Some c \<Rightarrow> (r\<lparr>bodyUsed := True\<rparr>, Inr c))"

definition response_json :: "response \<Rightarrow> response \<times> (error + jsval)" where
  "response_json r =
     (case response_text r of
        (r', Inl e) \<Rightarrow> (r', Inl e)
      | (r', Inr c) \<Rightarrow> (r', JSON_parse c))"

text \<open>
  The \<^verbatim>\<open>!response.ok\<close> branch of \<^verbatim>\<open>apiRequest\<close>: the \<^verbatim>\<open>try\<close> block reads the JSON
  payload and normalises \<^verbatim>\<open>payload?.detail ?? payload\<close>; the \<^verbatim>\<open>catch\<close> block reads the
  text and keeps it unless it is empty.
\<close>

definition nullish :: "jsval \<Rightarrow> bool" where
  "nullish v = (v = JUndefined \<or> v = JNull)"

definition error_message :: "response \<Rightarrow> error + string" where
  "error_message r =
     (let tried =
            (case response_json r of
               (r1, Inl e) \<Rightarrow> (r1, Inl e)
             | (r1, Inr payload) \<Rightarrow>
                 (let detail = (if nullish payload then JUndefined
                                else get_prop payload ''detail'')
                  in (r1, normalizeErrorDetail (if nullish detail then payload else detail))))
      in case tried of
           (r1, Inr message) \<Rightarrow> Inr message
         | (r1, Inl e) \<Rightarrow>
             (case response_text r1 of
                (r2, Inl e') \<Rightarrow> Inl e'
              | (r2, Inr text) \<Rightarrow>
                  Inr (if text_of text \<noteq> [] then text_of text else ''Request failed'')))"

definition handle_response :: "response \<Rightarrow> error + jsval" where
  "handle_response r =
     (if \<not> ok r then
        (case error_message r of
           Inl e \<Rightarrow> Inl e
         | Inr message \<Rightarrow> Inl (ApiError (status r) message))
      else if status r = 204 then Inr (JObj [])
      else
        (case response_text r of
           (r1, Inl e) \<Rightarrow> Inl e
         | (r1, Inr text) \<Rightarrow>
             if text_of text = [] then Inr (JObj [])
             else (case JSON_parse text of
                     Inr v \<Rightarrow> Inr v
                   | Inl e \<Rightarrow> Inr (JStr (text_of text)))))"

text \<open>
  \<^verbatim>\<open>apiRequest(path, options)\<close>, with \<^verbatim>\<open>fetch\<close> a parameter: the network and the server
  behind it, a function of the server's state. The request body stays typed (it is
  serialised on the wire); URL resolution against the base URL, query parameters and form
  data (which only the parse request sends) are not modelled. Every call appends the request it issues to \<open>sent\<close>.
\<close>

record 'b RequestOptions =
  opt_method :: string
  opt_token :: "string option"
  opt_workspaceId :: "int option"
  opt_body :: "'b option"

record 'b RequestInit =
  init_url :: string
  init_method :: string
  init_headers :: "(string \<times> string) list"
  init_body :: "'b option"

record ('s, 'b) net =
  server :: 's
  sent :: "'b RequestInit list"

definition apiRequest ::
  "('s \<Rightarrow> 'b RequestInit \<Rightarrow> 's \<times> (error + response)) \<Rightarrow> string \<Rightarrow> 'b RequestOptions \<Rightarrow>
     ('s, 'b) net \<Rightarrow> ('s, 'b) net \<times> (error + jsval)" where
  "apiRequest fetch path options n =
     (let headers =
            (case opt_token options of
               Some t \<Rightarrow> if t \<noteq> [] then [(''Authorization'', ''Bearer '' @ t)] else []
             | None \<Rightarrow> []) @
            (case opt_workspaceId options of
               Some w \<Rightarrow> if w \<noteq> 0 then [(''X-Workspace-Id'', show_int w)] else []
             | None \<Rightarrow> []) @
            (case opt_body options of
               Some b \<Rightarrow> [(''Content-Type'', ''application/json'')]
             | None \<Rightarrow> []);
          init = \<lparr>init_url = path, init_method = opt_method options,
                  init_headers = headers, init_body = opt_body options\<rparr>;
          (s', res) = fetch (server n) init;
          n' = n\<lparr>server := s', sent := sent n @ [init]\<rparr>
      in case res of
           Inl e \<Rightarrow> (n', Inl e)
         | Inr r \<Rightarrow> (n', handle_response r))"

subsection \<open>The inventory import flow (app/app/page.tsx)\<close>

text \<open>
  The types of the page and of \<^verbatim>\<open>lib/api/types\<close>. Optional and nullable fields are
  options; a \<^verbatim>\<open>ReceiptItem\<close> field that the page reads through \<^verbatim>\<open>??\<close> is an option too.
\<close>

datatype DuplicateAction = Auto | Merge | CreateNew | Review

record EditableImportRow =
  name :: string
  quantity :: rat
  unit :: string
  vendor :: string
  category :: string
  price :: "rat option"
  duplicate_action :: DuplicateAction
  duplicate_candidates :: string
  merge_item_id :: "int option"

record ReceiptItem =
  ri_name :: string
  ri_quantity :: "rat option"
  ri_unit :: "string option"
  ri_vendor :: "string option"
  ri_category :: "string option"
  ri_price :: "rat option"

record ReceiptExtraction =
  re_vendor :: "string option"
  re_date :: "string option"
  re_items :: "ReceiptItem list"

record DuplicateSuggestionCandidate =
  c_item_id :: int
  c_name :: string
  c_unit :: string
  c_category :: string
  c_quantity :: rat
  similarity_score :: rat
  reason :: string

record DuplicateSuggestionForImportItem =
  import_index :: int
  import_name :: string
  import_unit :: string
  candidates :: "DuplicateSuggestionCandidate list"
  recommended_action :: DuplicateAction
  recommended_merge_item_id :: "int option"

record PayloadItem =
  p_name :: string
  p_quantity :: rat
  p_unit :: string
  p_vendor :: "string option"
  p_category :: "string option"
  p_price :: "rat option"
  p_duplicate_action :: DuplicateAction
  p_merge_item_id :: "int option"

text \<open>
  The React state of the import panel, with the toasts shown so far and the value of the
  file input behind \<^verbatim>\<open>importFileInputRef\<close> (\<open>None\<close> when the ref is not attached). The
  query cache that \<^verbatim>\<open>invalidateQueries\<close> touches is not part of this state.
\<close>

datatype toast = ToastSuccess string | ToastError string

record import_state =
  importText :: string
  importFile :: "string option"
  parsedImport :: "ReceiptExtraction option"
  duplicateSuggestions :: "DuplicateSuggestionForImportItem list"
  editableRows :: "EditableImportRow list"
  importPage :: int
  fileInputValue :: "string option"
  toasts :: "toast list"

text \<open>
  \<^verbatim>\<open>parseImport.onSuccess\<close>: the suggestions are put in a \<^verbatim>\<open>Map\<close> keyed by
  \<^verbatim>\<open>import_index\<close> (a later entry replaces an earlier one with the same key), and each
  parsed item becomes an editable row. \<open>show_num\<close> is the runtime's rendering of a number in
  a template literal.
\<close>

definition suggestionsByIndex ::
  "DuplicateSuggestionForImportItem list \<Rightarrow> int \<Rightarrow> DuplicateSuggestionForImportItem option" where
  "suggestionsByIndex suggestions =
     fold (\<lambda>entry m. m(import_index entry \<mapsto> entry)) suggestions Map.empty"

definition parseImport_rows ::
  "(rat \<Rightarrow> string) \<Rightarrow> ReceiptExtraction \<Rightarrow> DuplicateSuggestionForImportItem list \<Rightarrow>
     EditableImportRow list" where
  "parseImport_rows show_num parsed suggestions =
     map (\<lambda>(index, item).
            let suggestion = suggestionsByIndex suggestions (int index);
                cands = (case suggestion of Some s \<Rightarrow> candidates s | None \<Rightarrow> [])
            in \<lparr>name = ri_name item,
                quantity = (case ri_quantity item of Some q \<Rightarrow> q | None \<Rightarrow> 1),
                unit = (case ri_unit item of Some u \<Rightarrow> u | None \<Rightarrow> ''units''),
                vendor = (case ri_vendor item of
                            Some v \<Rightarrow> v
                          | None \<Rightarrow> (case re_vendor parsed of Some v \<Rightarrow> v | None \<Rightarrow> [])),
                category = (case ri_category item of Some c \<Rightarrow> c | None \<Rightarrow> []),
                price = ri_price item,
                duplicate_action =
                  (case suggestion of Some s \<Rightarrow> recommended_action s | None \<Rightarrow> Auto),
                duplicate_candidates =
                  (if cands \<noteq> [] then
                     join ''; '' (map (\<lambda>candidate.
                                        c_name candidate @ '' ('' @ c_unit candidate @ '') score '' @
                                        show_num (similarity_score candidate)) cands)
                   else ''No close matches''),
                merge_item_id =
                  (case suggestion of Some s \<Rightarrow> recommended_merge_item_id s | None \<Rightarrow> None)\<rparr>)
         (enumerate 0 (re_items parsed))"

definition parseImport_onSuccess ::
  "(rat \<Rightarrow> string) \<Rightarrow> ReceiptExtraction \<Rightarrow> DuplicateSuggestionForImportItem list \<Rightarrow>
     import_state \<Rightarrow> import_state" where
  "parseImport_onSuccess show_num parsed suggestions st =
     st\<lparr>parsedImport := Some parsed,
        duplicateSuggestions := suggestions,
        editableRows := parseImport_rows show_num parsed suggestions,
        importPage := 1,
        toasts := toasts st @ [ToastSuccess ''Import parsed'']\<rparr>"

text \<open>\<^verbatim>\<open>handleEditableRowChange(index, patch)\<close>: the patch is applied to the row at \<open>index\<close>.\<close>

definition handleEditableRowChange ::
  "nat \<Rightarrow> (EditableImportRow \<Rightarrow> EditableImportRow) \<Rightarrow> import_state \<Rightarrow> import_state" where
  "handleEditableRowChange index patch st =
     st\<lparr>editableRows :=
          map (\<lambda>(rowIndex, row). if rowIndex = index then patch row else row)
              (enumerate 0 (editableRows st))\<rparr>"

text \<open>
  The patch that the action select passes: \<^verbatim>\<open>{ duplicate_action: event.target.value }\<close>.
\<close>

definition patch_duplicate_action :: "DuplicateAction \<Rightarrow> EditableImportRow \<Rightarrow> EditableImportRow" where
  "patch_duplicate_action a row = row\<lparr>duplicate_action := a\<rparr>"

text \<open>
  \<^verbatim>\<open>commitImport.mutationFn\<close>. The payload row keeps the row's \<^verbatim>\<open>merge_item_id\<close>; when
  the action is \<^verbatim>\<open>merge\<close> and the id is falsy (\<^verbatim>\<open>null\<close> or 0), it is replaced by
  \<^verbatim>\<open>duplicateSuggestions[index]?.recommended_merge_item_id ?? null\<close>.
\<close>

definition payloadItems ::
  "EditableImportRow list \<Rightarrow> DuplicateSuggestionForImportItem list \<Rightarrow> PayloadItem list" where
  "payloadItems rows suggestions =
     map (\<lambda>(index, row).
            let mergeItemId =
                  (if duplicate_action row = Merge \<and>
                      (merge_item_id row = None \<or> merge_item_id row = Some 0)
                   then (if index < length suggestions
                         then recommended_merge_item_id (suggestions ! index)
                         else None)
                   else merge_item_id row)
            in \<lparr>p_name = name row,
                p_quantity = quantity row,
                p_unit = unit row,
                p_vendor = (if vendor row \<noteq> [] then Some (vendor row) else None),
                p_category = (if category row \<noteq> [] then Some (category row) else None),
                p_price = price row,
                p_duplicate_action = duplicate_action row,
                p_merge_item_id = mergeItemId\<rparr>)
         (enumerate 0 rows)"

definition commitImport_mutationFn ::
  "('s \<Rightarrow> PayloadItem list RequestInit \<Rightarrow> 's \<times> (error + response)) \<Rightarrow>
     string option \<Rightarrow> int option \<Rightarrow> import_state \<Rightarrow>
     ('s, PayloadItem list) net \<Rightarrow> ('s, PayloadItem list) net \<times> (error + jsval)" where
  "commitImport_mutationFn fetch tok ws st n =
     (let unresolved = list_ex (\<lambda>row. duplicate_action row = Review) (editableRows st)
      in if unresolved then (n, Inl (Error ''Resolve duplicate decisions before commit.''))
         else apiRequest fetch ''/inventory/import/commit''
                \<lparr>opt_method = ''POST'', opt_token = tok, opt_workspaceId = ws,
                 opt_body = Some (payloadItems (editableRows st) (duplicateSuggestions st))\<rparr> n)"

text \<open>
  \<^verbatim>\<open>commitImport.onSuccess\<close> first renders \<^verbatim>\<open>items.length\<close> into the toast, which throws
  on \<^verbatim>\<open>null\<close>, and then resets the import state.
\<close>

fun items_length :: "jsval \<Rightarrow> error + string" where
  "items_length JUndefined = Inl (TypeError ''Cannot read properties of undefined'')"
| "items_length JNull = Inl (TypeError ''Cannot read properties of null'')"
| "items_length (JArr xs) = Inr (show_int (int (length xs)))"
| "items_length (JStr s) = Inr (show_int (int (length s)))"
| "items_length (JObj ps) = Inr (js_String (get_prop (JObj ps) ''length''))"
| "items_length v = Inr ''undefined''"

definition commitImport_onSuccess :: "jsval \<Rightarrow> import_state \<Rightarrow> error + import_state" where
  "commitImport_onSuccess items st =
     (case items_length items of
        Inl e \<Rightarrow> Inl e
      | Inr n \<Rightarrow>
          Inr (st\<lparr>toasts := toasts st @ [ToastSuccess (''Imported '' @ n @ '' item(s)'')],
                 parsedImport := None,
                 duplicateSuggestions := [],
                 editableRows := [],
                 importText := [],
                 importFile := None,
                 fileInputValue := (case fileInputValue st of Some v \<Rightarrow> Some [] | None \<Rightarrow> None),
                 importPage := 1\<rparr>))"

text \<open>\<^verbatim>\<open>onError\<close> shows the error's message.\<close>

fun message :: "error \<Rightarrow> string" where
  "message (ApiError s m) = m"
| "message (TypeError m) = m"
| "message (SyntaxError m) = m"
| "message (Error m) = m"

definition commitImport_onError :: "error \<Rightarrow> import_state \<Rightarrow> import_state" where
  "commitImport_onError e st = st\<lparr>toasts := toasts st @ [ToastError (message e)]\<rparr>"

text \<open>
  \<^verbatim>\<open>commitImport.mutate()\<close>: the mutation function runs; \<^verbatim>\<open>onSuccess\<close> is called with
  its result, \<^verbatim>\<open>onError\<close> with its exception (or with the exception of \<^verbatim>\<open>onSuccess\<close>).
\<close>

definition commitImport_mutate ::
  "('s \<Rightarrow> PayloadItem list RequestInit \<Rightarrow> 's \<times> (error + response)) \<Rightarrow>
     string option \<Rightarrow> int option \<Rightarrow>
     import_state \<times> ('s, PayloadItem list) net \<Rightarrow> import_state \<times> ('s, PayloadItem list) net" where
  "commitImport_mutate fetch tok ws w =
     (case w of (st, n) \<Rightarrow>
        (case commitImport_mutationFn fetch tok ws st n of
           (n', Inl e) \<Rightarrow> (commitImport_onError e st, n')
         | (n', Inr items) \<Rightarrow>
             (case commitImport_onSuccess items st of
                Inr st' \<Rightarrow> (st', n')
              | Inl e \<Rightarrow> (commitImport_onError e st, n'))))"

subsection \<open>The server side: duplicate suggestions and the commit reconciler\<close>

text \<open>Modelled from the spec: the status of an inventory record (section 3).
\<close>

datatype InventoryStatus = in_stock | low_stock | ordered | discontinued

text \<open>Modelled from the spec: the InventoryRecord of section 3, a record of the server's
  store, which is not among the web sources. The store is the list of the workspace's
  records.
\<close>

record InventoryRecord =
  rec_id :: int
  rec_name :: string
  rec_normalized_name :: string
  rec_category :: string
  rec_quantity :: rat
  rec_unit :: string
  low_stock_threshold :: rat
  rec_status :: InventoryStatus

text \<open>Modelled from the spec: the CommitDecision of section 3: the fields of a candidate item,
  the action and the explicit merge target, if any.
\<close>

record CommitDecision =
  d_name :: string
  d_quantity :: rat
  d_unit :: string
  d_category :: "string option"
  d_vendor :: "string option"
  d_price :: "rat option"
  d_duplicate_action :: DuplicateAction
  d_merge_target :: "int option"

text \<open>Modelled from the spec: the errors of section 7 that the reconciler raises, each
  carrying the \<^verbatim>\<open>import_index\<close> of the offending row.
\<close>

datatype commit_error =
    UnresolvedDuplicateError nat
  | InvalidMergeTargetError nat
  | ValidationError nat

text \<open>Modelled from the spec: what the reconciler takes from its surroundings: the merge
  target recommended for each \<^verbatim>\<open>import_index\<close> (section 4.3), the
  low-stock threshold of a new record (section 4.4) and the normalizer (section 4.1), none
  of them fixed by the specification.
\<close>

record commit_config =
  recommendation :: "nat \<Rightarrow> int option"
  default_threshold :: rat
  normalize :: "string \<Rightarrow> string"

text \<open>Modelled from the spec: resolving a record id against the store (section 4.4, step 1).
\<close>

definition lookup :: "InventoryRecord list \<Rightarrow> int \<Rightarrow> InventoryRecord option" where
  "lookup store t = find (\<lambda>r. rec_id r = t) store"

text \<open>Modelled from the spec: the merge target of a decision (section 4.4, step 1): the
  explicit target takes precedence, otherwise the recommendation computed for that row.
\<close>

definition resolve_target :: "commit_config \<Rightarrow> nat \<Rightarrow> CommitDecision \<Rightarrow> int option" where
  "resolve_target cfg i d =
     (case d_merge_target d of Some t \<Rightarrow> Some t | None \<Rightarrow> recommendation cfg i)"

text \<open>Modelled from the spec: the decisions that merge (section 4.4): the actions
  \<^verbatim>\<open>merge\<close> and \<^verbatim>\<open>auto\<close>.
\<close>

definition is_merge :: "CommitDecision \<Rightarrow> bool" where
  "is_merge d = (d_duplicate_action d = Merge \<or> d_duplicate_action d = Auto)"

text \<open>Modelled from the spec: the status rule of section 4.4, step 2: a quantity of at most
  the threshold is \<^verbatim>\<open>low_stock\<close>, a quantity above it
  \<^verbatim>\<open>in_stock\<close>.
\<close>

definition derive_status :: "rat \<Rightarrow> rat \<Rightarrow> InventoryStatus" where
  "derive_status q threshold = (if q \<le> threshold then low_stock else in_stock)"

text \<open>Modelled from the spec: the status after a merge (section 4.4, step 2): a record that
  was \<^verbatim>\<open>discontinued\<close> or \<^verbatim>\<open>ordered\<close> keeps
  its status, any other follows the status rule.
\<close>

definition recompute_status :: "InventoryStatus \<Rightarrow> rat \<Rightarrow> rat \<Rightarrow> InventoryStatus" where
  "recompute_status previous q threshold =
     (if previous = discontinued \<or> previous = ordered then previous
      else derive_status q threshold)"

text \<open>Modelled from the spec: the merge of section 4.4, step 2: the candidate's quantity is
  added onto the record's quantity, then the status is recomputed.
\<close>

definition merge_into :: "rat \<Rightarrow> InventoryRecord \<Rightarrow> InventoryRecord" where
  "merge_into q r =
     r\<lparr>rec_quantity := rec_quantity r + q,
       rec_status := recompute_status (rec_status r) (rec_quantity r + q) (low_stock_threshold r)\<rparr>"

text \<open>Modelled from the spec: the identifier of a new record (section 3 leaves it opaque): one
  more than the largest identifier in the store.
\<close>

definition fresh_id :: "InventoryRecord list \<Rightarrow> int" where
  "fresh_id store = 1 + fold max (map rec_id store) 0"

text \<open>Modelled from the spec: the record that \<^verbatim>\<open>create_new\<close> inserts
  (section 4.4, step 2): the candidate's quantity, the default threshold, the status
  derived from them.
\<close>

definition new_record :: "commit_config \<Rightarrow> InventoryRecord list \<Rightarrow> CommitDecision \<Rightarrow> InventoryRecord" where
  "new_record cfg store d =
     \<lparr>rec_id = fresh_id store,
      rec_name = d_name d,
      rec_normalized_name = normalize cfg (d_name d),
      rec_category = (case d_category d of Some c \<Rightarrow> c | None \<Rightarrow> []),
      rec_quantity = d_quantity d,
      rec_unit = d_unit d,
      low_stock_threshold = default_threshold cfg,
      rec_status = derive_status (d_quantity d) (default_threshold cfg)\<rparr>"

text \<open>Modelled from the spec: the first error that a check finds in a batch, rows taken in
  order (section 7: the error identifies the offending row).
\<close>

fun first_error :: "('a \<Rightarrow> commit_error option) \<Rightarrow> 'a list \<Rightarrow> commit_error option" where
  "first_error check [] = None"
| "first_error check (x # xs) =
     (case check x of Some e \<Rightarrow> Some e | None \<Rightarrow> first_error check xs)"

text \<open>Modelled from the spec: the first check of section 4.4, step 1: a row whose action is
  \<^verbatim>\<open>review\<close> is an
  \<^verbatim>\<open>UnresolvedDuplicateError\<close>.
\<close>

definition check_review :: "nat \<times> CommitDecision \<Rightarrow> commit_error option" where
  "check_review row =
     (case row of (i, d) \<Rightarrow>
        if d_duplicate_action d = Review then Some (UnresolvedDuplicateError i) else None)"

text \<open>Modelled from the spec: the other checks of section 4.4, step 1, and section 7: a
  negative quantity is a \<^verbatim>\<open>ValidationError\<close>; a merge or auto row
  whose target is missing, or is not a record of the store, is an
  \<^verbatim>\<open>InvalidMergeTargetError\<close>.
\<close>

definition check_row ::
  "commit_config \<Rightarrow> InventoryRecord list \<Rightarrow> nat \<times> CommitDecision \<Rightarrow> commit_error option" where
  "check_row cfg store row =
     (case row of (i, d) \<Rightarrow>
        if d_quantity d < 0 then Some (ValidationError i)
        else if is_merge d then
          (case resolve_target cfg i d of
             None \<Rightarrow> Some (InvalidMergeTargetError i)
           | Some t \<Rightarrow>
               (case lookup store t of
                  None \<Rightarrow> Some (InvalidMergeTargetError i)
                | Some r \<Rightarrow> None))
        else None)"

text \<open>Modelled from the spec: step 1 of the commit (section 4.4): the whole batch is validated
  before the store is touched, unresolved rows first.
\<close>

definition validate ::
  "commit_config \<Rightarrow> InventoryRecord list \<Rightarrow> CommitDecision list \<Rightarrow> commit_error + unit" where
  "validate cfg store ds =
     (case first_error check_review (enumerate 0 ds) of
        Some e \<Rightarrow> Inl e
      | None \<Rightarrow>
          (case first_error (check_row cfg store) (enumerate 0 ds) of
             Some e \<Rightarrow> Inl e
           | None \<Rightarrow> Inr ()))"

text \<open>Modelled from the spec: applying one decision (section 4.4, step 2):
  \<^verbatim>\<open>create_new\<close> inserts a record, \<^verbatim>\<open>merge\<close>
  and \<^verbatim>\<open>auto\<close> merge into the target, and a decision whose target
  is gone fails. The result is the new store and the id of the record created or updated.
\<close>

definition apply_decision ::
  "commit_config \<Rightarrow> InventoryRecord list \<Rightarrow> nat \<times> CommitDecision \<Rightarrow>
     commit_error + (InventoryRecord list \<times> int)" where
  "apply_decision cfg store row =
     (case row of (i, d) \<Rightarrow>
        (case d_duplicate_action d of
           Review \<Rightarrow> Inl (UnresolvedDuplicateError i)
         | CreateNew \<Rightarrow> Inr (store @ [new_record cfg store d], fresh_id store)
         | _ \<Rightarrow>
             (case resolve_target cfg i d of
                None \<Rightarrow> Inl (InvalidMergeTargetError i)
              | Some t \<Rightarrow>
                  (case lookup store t of
                     None \<Rightarrow> Inl (InvalidMergeTargetError i)
                   | Some r \<Rightarrow>
                       Inr (map (\<lambda>x. if rec_id x = t then merge_into (d_quantity d) x else x) store,
                            t)))))"

text \<open>Modelled from the spec: applying the decisions of a batch in order (section 4.4, step
  2), stopping at the first failure.
\<close>

fun apply_all ::
  "commit_config \<Rightarrow> InventoryRecord list \<Rightarrow> (nat \<times> CommitDecision) list \<Rightarrow>
     commit_error + (InventoryRecord list \<times> int list)" where
  "apply_all cfg store [] = Inr (store, [])"
| "apply_all cfg store (row # rows) =
     (case apply_decision cfg store row of
        Inl e \<Rightarrow> Inl e
      | Inr (store', t) \<Rightarrow>
          (case apply_all cfg store' rows of
             Inl e \<Rightarrow> Inl e
           | Inr (store'', ts) \<Rightarrow> Inr (store'', t # ts)))"

text \<open>Modelled from the spec: step 3 of the commit (section 4.4): the created and updated
  records, as they are in the store after the batch.
\<close>

definition affected :: "InventoryRecord list \<Rightarrow> int list \<Rightarrow> InventoryRecord list" where
  "affected store ts = List.map_filter (lookup store) (remdups ts)"

text \<open>Modelled from the spec: the commit of section 4.4: validation, then the decisions as one
  unit; on any failure the store is the one the commit started from.
\<close>

definition commit ::
  "commit_config \<Rightarrow> InventoryRecord list \<Rightarrow> CommitDecision list \<Rightarrow>
     InventoryRecord list \<times> (commit_error + InventoryRecord list)" where
  "commit cfg store ds =
     (case validate cfg store ds of
        Inl e \<Rightarrow> (store, Inl e)
      | Inr u \<Rightarrow>
          (case apply_all cfg store (enumerate 0 ds) of
             Inl e \<Rightarrow> (store, Inl e)
           | Inr (store', ts) \<Rightarrow> (store', Inr (affected store' ts))))"

text \<open>Modelled from the spec: \<^verbatim>\<open>suggestDuplicates(items)\<close> of section
  6, served by \<^verbatim>\<open>/inventory/import/suggest-duplicates\<close>, which is
  not among the web sources: one suggestion per input item, carrying the item's position
  as \<^verbatim>\<open>import_index\<close>. The scorer and the decision table are
  parameters: the specification fixes neither the similarity measure nor the thresholds.
\<close>

definition suggestDuplicates ::
  "(ReceiptItem \<Rightarrow> DuplicateSuggestionCandidate list) \<Rightarrow>
   (ReceiptItem \<Rightarrow> DuplicateSuggestionCandidate list \<Rightarrow> DuplicateAction \<times> int option) \<Rightarrow>
   ReceiptItem list \<Rightarrow> DuplicateSuggestionForImportItem list" where
  "suggestDuplicates score recommend items =
     map (\<lambda>(i, item).
            let matches = score item;
                decision = recommend item matches
            in \<lparr>import_index = int i,
                import_name = ri_name item,
                import_unit = (case ri_unit item of Some u \<Rightarrow> u | None \<Rightarrow> []),
                candidates = matches,
                recommended_action = fst decision,
                recommended_merge_item_id = snd decision\<rparr>)
         (enumerate 0 items)"

text \<open>
  Vocabulary for the statements about a batch, with no counterpart in the code: a row
  \<open>targets\<close> the record \<open>t\<close> when it is a merge or auto decision whose target
  resolves to \<open>t\<close>; \<open>merge_all\<close> merges the quantities of
  the rows that target \<open>t\<close> into a record, in batch order; \<open>merged_quantity\<close> is their sum.
\<close>

definition targets :: "commit_config \<Rightarrow> int \<Rightarrow> nat \<times> CommitDecision \<Rightarrow> bool" where
  "targets cfg t row =
     (case row of (i, d) \<Rightarrow> is_merge d \<and> resolve_target cfg i d = Some t)"

definition merge_all ::
  "commit_config \<Rightarrow> int \<Rightarrow> (nat \<times> CommitDecision) list \<Rightarrow> InventoryRecord \<Rightarrow> InventoryRecord" where
  "merge_all cfg t rows r =
     foldl (\<lambda>acc row. if targets cfg t row then merge_into (d_quantity (snd row)) acc else acc)
       r rows"

definition merged_quantity :: "commit_config \<Rightarrow> int \<Rightarrow> (nat \<times> CommitDecision) list \<Rightarrow> rat" where
  "merged_quantity cfg t rows =
     sum_list (map (\<lambda>row. if targets cfg t row then d_quantity (snd row) else 0) rows)"

subsection \<open>Example data\<close>

text \<open>
  Concrete rows, suggestions, a server and a store, at which the theorems below are
  instantiated. The example server keeps the batches it has received and answers every
  request with status 200 and the list of one item.
\<close>

definition example_row :: "DuplicateAction \<Rightarrow> int option \<Rightarrow> EditableImportRow" where
  "example_row a t =
     \<lparr>name = ''paper towels'', quantity = 2, unit = ''case'', vendor = [],
      category = ''supplies'', price = None, duplicate_action = a,
      duplicate_candidates = ''No close matches'', merge_item_id = t\<rparr>"

definition example_suggestion ::
  "int \<Rightarrow> DuplicateAction \<Rightarrow> int option \<Rightarrow> DuplicateSuggestionForImportItem" where
  "example_suggestion i a t =
     \<lparr>import_index = i, import_name = ''paper towels'', import_unit = ''case'',
      candidates = [], recommended_action = a, recommended_merge_item_id = t\<rparr>"

definition example_state :: "EditableImportRow list \<Rightarrow> import_state" where
  "example_state rows =
     \<lparr>importText = ''2 case paper towels'', importFile = None,
      parsedImport = Some \<lparr>re_vendor = None, re_date = None, re_items = []\<rparr>,
      duplicateSuggestions = [example_suggestion 0 Merge (Some 7)],
      editableRows = rows, importPage = 2, fileInputValue = Some ''receipt.txt'',
      toasts = []\<rparr>"

definition example_fetch ::
  "PayloadItem list list \<Rightarrow> PayloadItem list RequestInit \<Rightarrow>
     PayloadItem list list \<times> (error + response)" where
  "example_fetch batches init =
     (batches @ (case init_body init of Some b \<Rightarrow> [b] | None \<Rightarrow> []),
      Inr \<lparr>status = 200, body = Some (Json (JArr [JObj [(''id'', JNum 7)]])),
           bodyUsed = False\<rparr>)"

definition example_net :: "(PayloadItem list list, PayloadItem list) net" where
  "example_net = \<lparr>server = [], sent = []\<rparr>"

definition example_item :: ReceiptItem where
  "example_item =
     \<lparr>ri_name = ''paper towels'', ri_quantity = Some 2, ri_unit = Some ''case'',
      ri_vendor = None, ri_category = None, ri_price = None\<rparr>"

definition example_config :: commit_config where
  "example_config =
     \<lparr>recommendation = (\<lambda>i. None), default_threshold = 5, normalize = (\<lambda>s. s)\<rparr>"

definition example_record :: "InventoryStatus \<Rightarrow> InventoryRecord" where
  "example_record s =
     \<lparr>rec_id = 7, rec_name = ''Paper Towels'', rec_normalized_name = ''paper towels'',
      rec_category = ''supplies'', rec_quantity = 3, rec_unit = ''case'',
      low_stock_threshold = 5, rec_status = s\<rparr>"

definition example_decision :: "DuplicateAction \<Rightarrow> int option \<Rightarrow> CommitDecision" where
  "example_decision a t =
     \<lparr>d_name = ''paper towels'', d_quantity = 2, d_unit = ''case'', d_category = None,
      d_vendor = None, d_price = None, d_duplicate_action = a, d_merge_target = t\<rparr>"




section \<open>Properties\<close>

subsection \<open>Pagination\<close>

text \<open>Rounding the quotient up is integer division rounded towards plus infinity.\<close>

lemma ceil_div: "\<lceil>(of_int a :: rat) / of_int b\<rceil> = - ((- a) div b)"
proof -
  have "- ((of_int a :: rat) / of_int b) = of_int (- a) / of_int b" by simp
  then have "\<lfloor>- ((of_int a :: rat) / of_int b)\<rfloor> = (- a) div b"
    by (simp only: floor_divide_of_int_eq)
  then show ?thesis by (simp only: ceiling_def)
qed

lemma getTotalPages_int: "getTotalPages n s = max 1 (- ((- n) div max 1 s))"
  unfolding getTotalPages_def by (simp only: ceil_div)

lemma slice_nonneg:
  assumes "0 \<le> a" "0 \<le> b"
  shows "slice xs a (a + b) = take (nat b) (drop (nat a) xs)"
proof (cases "a \<le> int (length xs)")
  case True
  show ?thesis
  proof (cases "a + b \<le> int (length xs)")
    case True
    with assms \<open>a \<le> int (length xs)\<close> show ?thesis
      unfolding slice_def Let_def by (simp add: min_def)
  next
    case False
    with assms \<open>a \<le> int (length xs)\<close> have "length xs - nat a \<le> nat b" by linarith
    moreover have "nat (int (length xs) - a) = length xs - nat a" using assms by linarith
    ultimately show ?thesis
      using assms False \<open>a \<le> int (length xs)\<close>
      unfolding slice_def Let_def by (simp add: min_def)
  qed
next
  case False
  with assms show ?thesis
    unfolding slice_def Let_def by (simp add: min_def)
qed

lemma page_take_drop:
  assumes "1 \<le> p" "1 \<le> s"
  shows "slice xs ((p - 1) * s) ((p - 1) * s + s) = take (nat s) (drop (nat ((p - 1) * s)) xs)"
proof -
  from assms have "0 \<le> (p - 1) * s" by simp
  moreover from assms have "0 \<le> s" by simp
  ultimately show ?thesis by (rule slice_nonneg)
qed

lemma paginateItems_take_drop:
  "1 \<le> p \<Longrightarrow> paginateItems xs p psize =
     take (nat (max 1 psize)) (drop (nat ((p - 1) * max 1 psize)) xs)"
  unfolding paginateItems_def Let_def by (simp add: page_take_drop)

lemma pages_prefix:
  assumes "0 \<le> m"
  shows "concat (map (\<lambda>p. paginateItems xs p psize) [1..m]) = take (nat (m * max 1 psize)) xs"
  using assms
proof (induction m rule: int_ge_induct)
  case base
  show ?case by simp
next
  case (step i)
  have nn: "0 \<le> i * max 1 psize" using step.hyps by simp
  have "[1..i + 1] = [1..i] @ [i + 1]"
    using step.hyps by (simp add: upto_rec2)
  then have "concat (map (\<lambda>p. paginateItems xs p psize) [1..i + 1]) =
      take (nat (i * max 1 psize)) xs @ paginateItems xs (i + 1) psize"
    using step.IH by simp
  also have "paginateItems xs (i + 1) psize =
      take (nat (max 1 psize)) (drop (nat (i * max 1 psize)) xs)"
    using step.hyps by (simp add: paginateItems_take_drop)
  also have "take (nat (i * max 1 psize)) xs @ take (nat (max 1 psize)) (drop (nat (i * max 1 psize)) xs)
      = take (nat (i * max 1 psize) + nat (max 1 psize)) xs"
    by (simp add: take_add)
  also have "nat (i * max 1 psize) + nat (max 1 psize) = nat ((i + 1) * max 1 psize)"
    using nn by (simp add: nat_add_distrib algebra_simps)
  finally show ?case .
qed

lemma pages_cover: "n \<le> getTotalPages n psize * max 1 psize"
proof -
  let ?s = "max 1 psize"
  have s: "0 < ?s" by simp
  have "(- n) div ?s * ?s \<le> - n"
    using s by (metis div_mult_mod_eq le_add_same_cancel1 pos_mod_sign)
  then have "n \<le> (- ((- n) div ?s)) * ?s" by simp
  also have "\<dots> \<le> getTotalPages n psize * ?s"
    unfolding getTotalPages_int using s by (intro mult_right_mono) auto
  finally show ?thesis .
qed

lemma getTotalPages_ge_1: "1 \<le> getTotalPages n psize"
  by (simp add: getTotalPages_def)

lemma paginateItems_length: "length (paginateItems xs p psize) \<le> nat (max 1 psize)"
proof -
  have "paginateItems xs p psize = paginateItems xs (max 1 p) psize"
    by (simp add: paginateItems_def)
  then show ?thesis by (simp add: paginateItems_take_drop)
qed

text \<open>
  C9 (as the code has it). For every list and every integer page size, the pages
  1 .. \<open>getTotalPages\<close> concatenate to the list itself, in order; every page, whatever its
  number, has at most \<open>max 1 pageSize\<close> items; and \<open>getTotalPages\<close> is at least 1 for
  every item count and page size, zero and negative ones included.
\<close>

theorem paginate_roundtrip:
  "concat (map (\<lambda>p. paginateItems items p psize)
             [1..getTotalPages (int (length items)) psize]) = items
   \<and> int (length (paginateItems items page psize)) \<le> max 1 psize
   \<and> 1 \<le> getTotalPages n psize"
proof -
  let ?T = "getTotalPages (int (length items)) psize"
  have "0 \<le> ?T" using getTotalPages_ge_1 [of "int (length items)" psize] by simp
  then have "concat (map (\<lambda>p. paginateItems items p psize) [1..?T]) =
      take (nat (?T * max 1 psize)) items"
    by (rule pages_prefix)
  moreover have "length items \<le> nat (?T * max 1 psize)"
    using pages_cover [of "int (length items)" psize] by simp
  ultimately have "concat (map (\<lambda>p. paginateItems items p psize) [1..?T]) = items" by simp
  moreover have "int (length (paginateItems items page psize)) \<le> max 1 psize"
    using paginateItems_length [of items page psize] by simp
  ultimately show ?thesis using getTotalPages_ge_1 by simp
qed

text \<open>
  C9 as stated fails for a page size that is not positive: with page size 0 the first page
  of a one-item list holds one item, which is more than 0.
\<close>

theorem paginate_page_size_counterexample:
  "\<not> int (length (paginateItems [CHR ''a''] 1 0)) \<le> 0"
  by (simp add: paginateItems_def slice_def)

subsection \<open>\<^verbatim>\<open>normalizeErrorDetail\<close> returns a string\<close>

lemma collect_all_Inr:
  assumes "\<forall>x \<in> set xs. \<exists>s. f x = Inr s"
  shows "\<exists>ss. collect (map f xs) = Inr ss \<and> length ss = length xs"
  using assms
proof (induction xs)
  case Nil
  show ?case by simp
next
  case (Cons x xs)
  then obtain s where s: "f x = Inr s" by auto
  from Cons obtain ss where "collect (map f xs) = Inr ss" "length ss = length xs" by auto
  with s show ?case by simp
qed

lemma JSON_stringify_serializable:
  "serializable v \<Longrightarrow> \<exists>s. JSON_stringify v = Inr s"
proof (induction v)
  case (JArr xs)
  then have "\<forall>x \<in> set xs. \<exists>s. JSON_stringify x = Inr s"
    by (auto simp: list_all_iff)
  from collect_all_Inr [OF this] show ?case by auto
next
  case (JObj ps)
  let ?f = "\<lambda>p. case JSON_stringify (snd p) of
                   Inl e \<Rightarrow> Inl e
                 | Inr s \<Rightarrow> Inr (quote (fst p) @ '':'' @ s)"
  have "\<forall>p \<in> set (filter (\<lambda>p. snd p \<noteq> JUndefined) ps). \<exists>s. ?f p = Inr s"
  proof
    fix p assume "p \<in> set (filter (\<lambda>p. snd p \<noteq> JUndefined) ps)"
    then have p: "p \<in> set ps" by simp
    then have "serializable (snd p)" using JObj.prems by (auto simp: list_all_iff)
    moreover have "snd p \<in> Basic_BNFs.snds p" by (cases p) simp
    ultimately obtain s where "JSON_stringify (snd p) = Inr s"
      using JObj.IH p by blast
    then show "\<exists>s. ?f p = Inr s" by simp
  qed
  from collect_all_Inr [OF this] show ?case by auto
qed simp_all

lemma normalizePart_serializable:
  assumes "serializable part"
  shows "\<exists>s. normalizePart part = Inr s"
proof -
  from JSON_stringify_serializable [OF assms] obtain s where s: "JSON_stringify part = Inr s" ..
  show ?thesis
  proof (cases "\<exists>m. get_prop part ''msg'' = JStr m")
    case True
    then obtain m where "get_prop part ''msg'' = JStr m" ..
    then show ?thesis
      unfolding normalizePart_def by (cases part) (simp_all add: Let_def)
  next
    case False
    then have "(case get_prop part ''msg'' of JStr m \<Rightarrow> Inr m | _ \<Rightarrow> JSON_stringify part) = Inr s"
      using s by (cases "get_prop part ''msg''") simp_all
    then show ?thesis
      unfolding normalizePart_def by (cases part) (simp_all add: Let_def)
  qed
qed

lemma normalizeErrorDetail_serializable:
  assumes "serializable detail"
  shows "\<exists>s. normalizeErrorDetail detail = Inr s"
proof (cases detail)
  case (JArr parts)
  with assms have "\<forall>x \<in> set parts. \<exists>s. normalizePart x = Inr s"
    by (auto simp: list_all_iff intro: normalizePart_serializable)
  from collect_all_Inr [OF this] JArr show ?thesis
    by (auto simp: normalizeErrorDetail_def)
next
  case (JObj ps)
  with JSON_stringify_serializable [OF assms] show ?thesis
    by (auto simp: normalizeErrorDetail_def)
qed (simp_all add: normalizeErrorDetail_def)

lemma normalizeErrorDetail_falsy:
  "\<not> truthy detail \<Longrightarrow> normalizeErrorDetail detail = Inr ''Request failed''"
  by (simp add: normalizeErrorDetail_def)

text \<open>
  C10 (as the code has it). For every value without a BigInt in it, that is for every value
  \<^verbatim>\<open>JSON.parse\<close> can return and for \<^verbatim>\<open>undefined\<close>, \<^verbatim>\<open>normalizeErrorDetail\<close> returns a
  string and does not throw; and for every falsy value it returns \<^verbatim>\<open>"Request failed"\<close>.
\<close>

theorem normalizeErrorDetail_total:
  "(serializable detail \<longrightarrow> (\<exists>s. normalizeErrorDetail detail = Inr s)) \<and>
   (\<not> truthy detail \<longrightarrow> normalizeErrorDetail detail = Inr ''Request failed'')"
  using normalizeErrorDetail_serializable normalizeErrorDetail_falsy by blast

text \<open>
  The theorem at a validation-error array as the server sends it, and at the empty string.
\<close>

theorem normalizeErrorDetail_total_witness:
  "serializable (JArr [JObj [(''loc'', JArr [JStr ''body'', JStr ''items'']),
                             (''msg'', JStr ''bad'')]]) \<and>
   (\<exists>s. normalizeErrorDetail (JArr [JObj [(''loc'', JArr [JStr ''body'', JStr ''items'']),
                                           (''msg'', JStr ''bad'')]]) = Inr s) \<and>
   \<not> truthy (JStr []) \<and> normalizeErrorDetail (JStr []) = Inr ''Request failed''"
  using normalizeErrorDetail_total
          [of "JArr [JObj [(''loc'', JArr [JStr ''body'', JStr ''items'']),
                           (''msg'', JStr ''bad'')]]"]
        normalizeErrorDetail_total [of "JStr []"]
  by simp

text \<open>
  C10 as stated, for every input value, fails on an object that holds a BigInt:
  \<^verbatim>\<open>JSON.stringify\<close> throws, and so does \<^verbatim>\<open>normalizeErrorDetail\<close>.
\<close>

theorem normalizeErrorDetail_bigint_counterexample:
  "normalizeErrorDetail (JObj [(''count'', JBigInt 1)]) =
     Inl (TypeError ''Do not know how to serialize a BigInt'')"
  by (simp add: normalizeErrorDetail_def)

subsection \<open>The API client on a failed response\<close>

text \<open>A response whose status is not in 200..299 never becomes a result.\<close>

lemma handle_response_not_ok:
  assumes "\<not> ok r"
  shows "\<exists>e. handle_response r = Inl e"
  using assms by (auto simp: handle_response_def split: sum.splits)

text \<open>
  When the body of the failed response is JSON, \<^verbatim>\<open>apiRequest\<close> throws an \<^verbatim>\<open>ApiError\<close>
  with the response's status and the normalised \<^verbatim>\<open>detail\<close> (or the normalised payload when
  there is no \<^verbatim>\<open>detail\<close>).
\<close>

lemma handle_response_json_error:
  assumes "\<not> ok r" and "\<not> bodyUsed r" and "body r = Some (Json payload)"
      and "serializable payload"
  shows "\<exists>m. handle_response r = Inl (ApiError (status r) m) \<and>
             normalizeErrorDetail
               (if nullish payload \<or> nullish (get_prop payload ''detail'') then payload
                else get_prop payload ''detail'') = Inr m"
proof -
  let ?d = "if nullish payload \<or> nullish (get_prop payload ''detail'') then payload
            else get_prop payload ''detail''"
  have "serializable (get_prop payload ''detail'')"
  proof (cases payload)
    case (JObj ps)
    show ?thesis
    proof (cases "map_of ps ''detail''")
      case None
      with JObj show ?thesis by simp
    next
      case (Some v)
      then have "(''detail'', v) \<in> set ps" by (rule map_of_SomeD)
      with assms(4) JObj have "serializable v" by (auto simp: list_all_iff)
      with Some JObj show ?thesis by simp
    qed
  qed simp_all
  with assms(4) have "serializable ?d" by simp
  from normalizeErrorDetail_serializable [OF this] obtain m
    where m: "normalizeErrorDetail ?d = Inr m" ..
  have "error_message r = Inr m"
    using assms(2,3) m
    by (auto simp: error_message_def response_json_def response_text_def unusable_def Let_def
        nullish_def)
  with assms(1) m show ?thesis by (simp add: handle_response_def)
qed

text \<open>
  When the failed response has no body at all, the \<^verbatim>\<open>catch\<close> block reads the empty text
  and the fallback message is used; when it has a body that is not JSON, the second read
  fails, whatever the text is.
\<close>

lemma handle_response_null_body:
  assumes "\<not> ok r" and "body r = None"
  shows "handle_response r = Inl (ApiError (status r) ''Request failed'')"
  using assms
  by (simp add: handle_response_def error_message_def response_json_def response_text_def
      unusable_def)

lemma handle_response_raw_body:
  assumes "\<not> ok r" and "body r = Some (Raw s)" and "\<not> bodyUsed r"
  shows "handle_response r = Inl (TypeError ''body stream already read'')"
  using assms
  by (simp add: handle_response_def error_message_def response_json_def response_text_def
      unusable_def)

text \<open>
  C7. A failed response is to raise an \<^verbatim>\<open>ApiError\<close> carrying the HTTP status. When the
  body of the failed response is not JSON, \<^verbatim>\<open>response.json()\<close> consumes the body and
  throws, and the \<^verbatim>\<open>catch\<close> block's \<^verbatim>\<open>response.text()\<close> then throws a
  \<^verbatim>\<open>TypeError\<close>: the caller of \<^verbatim>\<open>apiRequest\<close> gets that \<^verbatim>\<open>TypeError\<close>, without the
  status 502 and without the text of the body.
\<close>

theorem apiRequest_non_json_error_body:
  "snd (apiRequest
          (\<lambda>s init. (s, Inr \<lparr>status = 502, body = Some (Raw ''Bad Gateway''), bodyUsed = False\<rparr>))
          ''/inventory/import/commit''
          \<lparr>opt_method = ''POST'', opt_token = Some ''token'', opt_workspaceId = Some 1,
           opt_body = Some []\<rparr> example_net) =
   Inl (TypeError ''body stream already read'')"
  by (simp add: apiRequest_def Let_def handle_response_def ok_def error_message_def
      response_json_def response_text_def unusable_def)

subsection \<open>Unresolved rows stop the commit in the client\<close>

lemma mutationFn_review:
  assumes "\<exists>row \<in> set (editableRows st). duplicate_action row = Review"
  shows "commitImport_mutationFn fetch tok ws st n =
           (n, Inl (Error ''Resolve duplicate decisions before commit.''))"
  using assms by (simp add: commitImport_mutationFn_def list_ex_iff)

text \<open>
  C1. If any row of the batch has the action \<^verbatim>\<open>review\<close>, the commit is rejected before
  any request is issued: the mutation function throws, the list of requests sent and the
  state of the server behind \<^verbatim>\<open>fetch\<close> are what they were, and the rows are unchanged
  (the only effect is the error toast), whatever the other rows are.
\<close>

theorem commit_rejects_review_rows:
  assumes "\<exists>row \<in> set (editableRows st). duplicate_action row = Review"
  shows "commitImport_mutationFn fetch tok ws st n =
           (n, Inl (Error ''Resolve duplicate decisions before commit.'')) \<and>
         commitImport_mutate fetch tok ws (st, n) =
           (st\<lparr>toasts := toasts st @
                  [ToastError ''Resolve duplicate decisions before commit.'']\<rparr>, n) \<and>
         sent (snd (commitImport_mutate fetch tok ws (st, n))) = sent n \<and>
         server (snd (commitImport_mutate fetch tok ws (st, n))) = server n \<and>
         editableRows (fst (commitImport_mutate fetch tok ws (st, n))) = editableRows st"
  using mutationFn_review [OF assms, of fetch tok ws n]
  by (simp add: commitImport_mutate_def commitImport_onError_def)

text \<open>
  The theorem at a batch of three rows, the second one unresolved, against the example
  server, which stores a batch as soon as a request reaches it.
\<close>

theorem commit_rejects_review_rows_witness:
  "(\<exists>row \<in> set (editableRows (example_state
       [example_row Merge (Some 7), example_row Review None, example_row CreateNew None])).
      duplicate_action row = Review) \<and>
   snd (commitImport_mutate example_fetch (Some ''token'') (Some 1)
     (example_state [example_row Merge (Some 7), example_row Review None,
        example_row CreateNew None], example_net)) = \<lparr>server = [], sent = []\<rparr> \<and>
   length (server (fst (apiRequest example_fetch ''/inventory/import/commit''
     \<lparr>opt_method = ''POST'', opt_token = Some ''token'', opt_workspaceId = Some 1,
      opt_body = Some []\<rparr> example_net))) = 1"
proof -
  let ?st = "example_state
       [example_row Merge (Some 7), example_row Review None, example_row CreateNew None]"
  have h: "\<exists>row \<in> set (editableRows ?st). duplicate_action row = Review"
    by (simp add: example_state_def example_row_def)
  have "length (server (fst (apiRequest example_fetch ''/inventory/import/commit''
     \<lparr>opt_method = ''POST'', opt_token = Some ''token'', opt_workspaceId = Some 1,
      opt_body = Some []\<rparr> example_net))) = 1"
    by (simp add: apiRequest_def example_fetch_def example_net_def Let_def)
  with h commit_rejects_review_rows [OF h, of example_fetch "Some ''token''" "Some 1" example_net]
  show ?thesis by (simp add: example_net_def)
qed

subsection \<open>The import state after a successful commit\<close>

lemma items_length_defined:
  "\<not> nullish items \<Longrightarrow> \<exists>s. items_length items = Inr s"
  by (cases items) (simp_all add: nullish_def)

text \<open>
  C8. After a successful commit (the mutation function returned the server's result, which
  is not \<^verbatim>\<open>null\<close>), the parsed extraction, the duplicate suggestions, the editable rows,
  the raw import text and the selected file are all reset to empty.
\<close>

theorem commit_success_resets:
  assumes "commitImport_mutationFn fetch tok ws st n = (n', Inr items)"
      and "\<not> nullish items"
  shows "parsedImport (fst (commitImport_mutate fetch tok ws (st, n))) = None \<and>
         duplicateSuggestions (fst (commitImport_mutate fetch tok ws (st, n))) = [] \<and>
         editableRows (fst (commitImport_mutate fetch tok ws (st, n))) = [] \<and>
         importText (fst (commitImport_mutate fetch tok ws (st, n))) = [] \<and>
         importFile (fst (commitImport_mutate fetch tok ws (st, n))) = None"
proof -
  from items_length_defined [OF assms(2)] obtain s where "items_length items = Inr s" ..
  with assms(1) show ?thesis
    by (simp add: commitImport_mutate_def commitImport_onSuccess_def)
qed

text \<open>The commit of two resolved rows against the example server, and the theorem there.\<close>

lemma example_commit_result:
  "commitImport_mutationFn example_fetch (Some ''token'') (Some 1)
     (example_state [example_row Merge (Some 7), example_row CreateNew None]) example_net =
   (\<lparr>server = [payloadItems [example_row Merge (Some 7), example_row CreateNew None]
                   [example_suggestion 0 Merge (Some 7)]],
     sent = [\<lparr>init_url = ''/inventory/import/commit'', init_method = ''POST'',
              init_headers = [(''Authorization'', ''Bearer token''), (''X-Workspace-Id'', ''1''),
                              (''Content-Type'', ''application/json'')],
              init_body = Some (payloadItems [example_row Merge (Some 7), example_row CreateNew None]
                   [example_suggestion 0 Merge (Some 7)])\<rparr>]\<rparr>,
    Inr (JArr [JObj [(''id'', JNum 7)]]))"
  by (simp add: commitImport_mutationFn_def example_state_def example_row_def apiRequest_def
      example_fetch_def example_net_def Let_def show_int_def handle_response_def ok_def
      response_text_def unusable_def)

theorem commit_success_resets_witness:
  "commitImport_mutationFn example_fetch (Some ''token'') (Some 1)
     (example_state [example_row Merge (Some 7), example_row CreateNew None]) example_net =
   (\<lparr>server = [payloadItems [example_row Merge (Some 7), example_row CreateNew None]
                   [example_suggestion 0 Merge (Some 7)]],
     sent = [\<lparr>init_url = ''/inventory/import/commit'', init_method = ''POST'',
              init_headers = [(''Authorization'', ''Bearer token''), (''X-Workspace-Id'', ''1''),
                              (''Content-Type'', ''application/json'')],
              init_body = Some (payloadItems [example_row Merge (Some 7), example_row CreateNew None]
                   [example_suggestion 0 Merge (Some 7)])\<rparr>]\<rparr>,
    Inr (JArr [JObj [(''id'', JNum 7)]])) \<and>
   \<not> nullish (JArr [JObj [(''id'', JNum 7)]]) \<and>
   editableRows (fst (commitImport_mutate example_fetch (Some ''token'') (Some 1)
     (example_state [example_row Merge (Some 7), example_row CreateNew None], example_net))) = [] \<and>
   importText (fst (commitImport_mutate example_fetch (Some ''token'') (Some 1)
     (example_state [example_row Merge (Some 7), example_row CreateNew None], example_net))) = []"
proof -
  have n: "\<not> nullish (JArr [JObj [(''id'', JNum 7)]])" by (simp add: nullish_def)
  from commit_success_resets [OF example_commit_result n] example_commit_result n
  show ?thesis by simp
qed

subsection \<open>Merge targets: from the suggestions to the rows to the payload\<close>

text \<open>
  The \<^verbatim>\<open>Map\<close> built at parse time returns the last suggestion with the given
  \<^verbatim>\<open>import_index\<close>; when the suggestions are stored in index order, that is the
  suggestion at that position.
\<close>

lemma suggestionsByIndex_snoc:
  "suggestionsByIndex (xs @ [x]) = (suggestionsByIndex xs)(import_index x \<mapsto> x)"
  by (simp add: suggestionsByIndex_def)

lemma suggestionsByIndex_last_wins:
  "suggestionsByIndex xs k = find (\<lambda>s. import_index s = k) (rev xs)"
proof (induction xs rule: rev_induct)
  case Nil
  show ?case by (simp add: suggestionsByIndex_def)
next
  case (snoc x xs)
  then show ?case by (simp add: suggestionsByIndex_snoc)
qed

lemma suggestionsByIndex_ordered:
  assumes "\<forall>j<length xs. import_index (xs ! j) = int j"
  shows "suggestionsByIndex xs (int i) = (if i < length xs then Some (xs ! i) else None)"
  using assms
proof (induction xs rule: rev_induct)
  case Nil
  show ?case by (simp add: suggestionsByIndex_def)
next
  case (snoc x xs)
  have prev: "\<forall>j<length xs. import_index (xs ! j) = int j"
  proof (intro allI impI)
    fix j assume j: "j < length xs"
    then have "import_index ((xs @ [x]) ! j) = int j" using snoc.prems by simp
    with j show "import_index (xs ! j) = int j" by (simp add: nth_append)
  qed
  have last: "import_index x = int (length xs)"
    using snoc.prems [rule_format, of "length xs"] by simp
  show ?case
  proof (cases "i = length xs")
    case True
    with last show ?thesis by (simp add: suggestionsByIndex_snoc)
  next
    case False
    with last have "import_index x \<noteq> int i" by simp
    with snoc.IH [OF prev] False show ?thesis
      by (auto simp: suggestionsByIndex_snoc nth_append)
  qed
qed

lemma find_Some_mem: "find P xs = Some y \<Longrightarrow> y \<in> set xs \<and> P y"
  by (induction xs) (auto split: if_splits)

lemma suggestionsByIndex_unique:
  assumes "s \<in> set xs" and "import_index s = k"
      and "\<forall>s' \<in> set xs. import_index s' = k \<longrightarrow> s' = s"
  shows "suggestionsByIndex xs k = Some s"
proof -
  from assms(1,2) have "\<exists>x \<in> set (rev xs). import_index x = k" by auto
  then obtain y where y: "find (\<lambda>s. import_index s = k) (rev xs) = Some y"
    by (cases "find (\<lambda>s. import_index s = k) (rev xs)") (auto simp: find_None_iff)
  then have "y \<in> set xs" "import_index y = k"
    by (auto dest: find_Some_mem)
  with assms(3) have "y = s" by blast
  with y show ?thesis by (simp add: suggestionsByIndex_last_wins)
qed

lemma payloadItems_length: "length (payloadItems rows suggestions) = length rows"
  by (simp add: payloadItems_def)

lemma payloadItems_nth:
  assumes "i < length rows"
  shows "p_duplicate_action (payloadItems rows suggestions ! i) = duplicate_action (rows ! i)"
    and "p_merge_item_id (payloadItems rows suggestions ! i) =
       (if duplicate_action (rows ! i) = Merge \<and>
           (merge_item_id (rows ! i) = None \<or> merge_item_id (rows ! i) = Some 0)
        then (if i < length suggestions then recommended_merge_item_id (suggestions ! i) else None)
        else merge_item_id (rows ! i))"
  using assms by (simp_all add: payloadItems_def nth_enumerate_eq Let_def)


text \<open>
  With the suggestions stored in index order, the position read by the fallback is the
  entry of the \<^verbatim>\<open>Map\<close> for that index.
\<close>

lemma payload_target_ordered:
  assumes "\<forall>j<length suggestions. import_index (suggestions ! j) = int j"
      and "i < length rows"
  shows "length (payloadItems rows suggestions) = length rows \<and>
         p_duplicate_action (payloadItems rows suggestions ! i) = duplicate_action (rows ! i) \<and>
         p_merge_item_id (payloadItems rows suggestions ! i) =
           (if duplicate_action (rows ! i) = Merge \<and>
               (merge_item_id (rows ! i) = None \<or> merge_item_id (rows ! i) = Some 0)
            then (case suggestionsByIndex suggestions (int i) of
                    Some s \<Rightarrow> recommended_merge_item_id s
                  | None \<Rightarrow> None)
            else merge_item_id (rows ! i))"
  using payloadItems_nth [OF assms(2), of suggestions]
    suggestionsByIndex_ordered [OF assms(1), of i]
  by (auto simp: payloadItems_length)

text \<open>
  Each editable row takes its action and its merge target from the suggestion that the
  \<^verbatim>\<open>Map\<close> holds for the row's position, whatever list of suggestions the server sent.
\<close>

lemma parseImport_rows_length:
  "length (parseImport_rows show_num parsed suggestions) = length (re_items parsed)"
  by (simp add: parseImport_rows_def)

lemma parseImport_rows_nth:
  assumes "i < length (re_items parsed)"
  shows "duplicate_action (parseImport_rows show_num parsed suggestions ! i) =
           (case suggestionsByIndex suggestions (int i) of
              Some s \<Rightarrow> recommended_action s | None \<Rightarrow> Auto)"
    and "merge_item_id (parseImport_rows show_num parsed suggestions ! i) =
           (case suggestionsByIndex suggestions (int i) of
              Some s \<Rightarrow> recommended_merge_item_id s | None \<Rightarrow> None)"
  using assms by (simp_all add: parseImport_rows_def nth_enumerate_eq Let_def)

lemma parseImport_rows_unique_suggestion:
  assumes "i < length (re_items parsed)"
      and "s \<in> set suggestions" and "import_index s = int i"
      and "\<forall>s' \<in> set suggestions. import_index s' = int i \<longrightarrow> s' = s"
  shows "duplicate_action (parseImport_rows show_num parsed suggestions ! i) = recommended_action s"
    and "merge_item_id (parseImport_rows show_num parsed suggestions ! i) =
           recommended_merge_item_id s"
  using parseImport_rows_nth [OF assms(1), of show_num suggestions]
    suggestionsByIndex_unique [OF assms(2,3,4)]
  by simp_all

lemma suggestDuplicates_length:
  "length (suggestDuplicates score recommend items) = length items"
  by (simp add: suggestDuplicates_def)

lemma suggestDuplicates_index:
  "j < length items \<Longrightarrow> import_index (suggestDuplicates score recommend items ! j) = int j"
  by (simp add: suggestDuplicates_def nth_enumerate_eq Let_def)

text \<open>
  C5. \<^verbatim>\<open>suggestDuplicates\<close> returns one suggestion per input item, the suggestion of
  item \<open>i\<close> carrying \<^verbatim>\<open>import_index\<close> \<open>i\<close> and no other suggestion carrying it; and after
  \<^verbatim>\<open>parseImport\<close> there is one editable row per item, the row at position \<open>i\<close> having
  the \<^verbatim>\<open>recommended_action\<close> of that suggestion as its \<^verbatim>\<open>duplicate_action\<close> and its
  \<^verbatim>\<open>recommended_merge_item_id\<close> as its \<^verbatim>\<open>merge_item_id\<close>.
\<close>

theorem parse_rows_follow_suggestions:
  assumes "i < length (re_items parsed)"
  shows "length (suggestDuplicates score recommend (re_items parsed)) = length (re_items parsed) \<and>
         import_index (suggestDuplicates score recommend (re_items parsed) ! i) = int i \<and>
         (\<forall>j<length (re_items parsed).
            import_index (suggestDuplicates score recommend (re_items parsed) ! j) = int i
              \<longrightarrow> j = i) \<and>
         length (editableRows (parseImport_onSuccess show_num parsed
                   (suggestDuplicates score recommend (re_items parsed)) st))
           = length (re_items parsed) \<and>
         duplicate_action (editableRows (parseImport_onSuccess show_num parsed
                   (suggestDuplicates score recommend (re_items parsed)) st) ! i)
           = recommended_action (suggestDuplicates score recommend (re_items parsed) ! i) \<and>
         merge_item_id (editableRows (parseImport_onSuccess show_num parsed
                   (suggestDuplicates score recommend (re_items parsed)) st) ! i)
           = recommended_merge_item_id (suggestDuplicates score recommend (re_items parsed) ! i)"
proof -
  let ?suggestions = "suggestDuplicates score recommend (re_items parsed)"
  have len: "length ?suggestions = length (re_items parsed)"
    by (rule suggestDuplicates_length)
  have ord: "\<forall>j<length ?suggestions. import_index (?suggestions ! j) = int j"
    by (simp add: suggestDuplicates_index len)
  have at_i: "suggestionsByIndex ?suggestions (int i) = Some (?suggestions ! i)"
    using suggestionsByIndex_ordered [OF ord, of i] assms len by simp
  have one: "\<forall>j<length (re_items parsed). import_index (?suggestions ! j) = int i \<longrightarrow> j = i"
    by (simp add: suggestDuplicates_index)
  have rows: "editableRows (parseImport_onSuccess show_num parsed ?suggestions st) =
      parseImport_rows show_num parsed ?suggestions"
    by (simp add: parseImport_onSuccess_def)
  from parseImport_rows_nth [OF assms, of show_num ?suggestions] at_i len one rows
  show ?thesis
    by (simp add: parseImport_rows_length suggestDuplicates_index assms)
qed

text \<open>The theorem at a receipt of one item whose suggestion recommends a merge into 7.\<close>

theorem parse_rows_follow_suggestions_witness:
  "(0::nat) < length (re_items \<lparr>re_vendor = Some ''Acme'', re_date = None,
                               re_items = [example_item]\<rparr>) \<and>
   duplicate_action (editableRows (parseImport_onSuccess (\<lambda>q. ''1'')
       \<lparr>re_vendor = Some ''Acme'', re_date = None, re_items = [example_item]\<rparr>
       (suggestDuplicates (\<lambda>item. []) (\<lambda>item matches. (Merge, Some 7)) [example_item])
       (example_state [])) ! 0) = Merge \<and>
   merge_item_id (editableRows (parseImport_onSuccess (\<lambda>q. ''1'')
       \<lparr>re_vendor = Some ''Acme'', re_date = None, re_items = [example_item]\<rparr>
       (suggestDuplicates (\<lambda>item. []) (\<lambda>item matches. (Merge, Some 7)) [example_item])
       (example_state [])) ! 0) = Some 7"
proof -
  let ?parsed = "\<lparr>re_vendor = Some ''Acme'', re_date = None, re_items = [example_item]\<rparr>"
  have i: "(0::nat) < length (re_items ?parsed)" by simp
  have s: "suggestDuplicates (\<lambda>item. []) (\<lambda>item matches. (Merge, Some 7)) (re_items ?parsed) ! 0
      = example_suggestion 0 Merge (Some 7)"
    by (simp add: suggestDuplicates_def example_item_def example_suggestion_def)
  from parse_rows_follow_suggestions [OF i, of "\<lambda>item. []" "\<lambda>item matches. (Merge, Some 7)"
      "\<lambda>q. ''1''" "example_state []"] s i
  show ?thesis by (simp add: example_suggestion_def)
qed

subsection \<open>The merge target of a row that is committed\<close>

text \<open>
  A merge target that is set (not \<^verbatim>\<open>null\<close>, not 0) is submitted as it is, whatever the
  action and whatever the suggestions; and a row whose action is not \<^verbatim>\<open>merge\<close> is
  submitted with its own \<^verbatim>\<open>merge_item_id\<close>.
\<close>

lemma payload_explicit_target:
  assumes "i < length rows" and "merge_item_id (rows ! i) = Some t" and "t \<noteq> 0"
  shows "p_merge_item_id (payloadItems rows suggestions ! i) = Some t"
  using assms payloadItems_nth(2) [OF assms(1), of suggestions] by simp

lemma payload_other_actions:
  assumes "i < length rows" and "duplicate_action (rows ! i) \<noteq> Merge"
  shows "p_merge_item_id (payloadItems rows suggestions ! i) = merge_item_id (rows ! i)"
  using assms payloadItems_nth(2) [OF assms(1), of suggestions] by simp

text \<open>
  The rows get their \<^verbatim>\<open>merge_item_id\<close> at parse time, from the \<^verbatim>\<open>Map\<close> entry of their
  index, and an edit that does not touch that field, such as the change of the action,
  keeps it. So with the suggestions stored in index order every row, \<^verbatim>\<open>merge\<close> or
  \<^verbatim>\<open>auto\<close>, is submitted with the target recommended for its \<^verbatim>\<open>import_index\<close>.
\<close>

lemma handleEditableRowChange_keeps_targets:
  assumes "\<And>row. merge_item_id (patch row) = merge_item_id row"
  shows "map merge_item_id (editableRows (handleEditableRowChange k patch st)) =
           map merge_item_id (editableRows st)"
    and "duplicateSuggestions (handleEditableRowChange k patch st) = duplicateSuggestions st"
proof -
  have "map merge_item_id (map (\<lambda>(rowIndex, row). if rowIndex = k then patch row else row)
          (enumerate n rows)) = map merge_item_id rows" for n rows
    by (induction rows arbitrary: n) (simp_all add: assms)
  then show "map merge_item_id (editableRows (handleEditableRowChange k patch st)) =
           map merge_item_id (editableRows st)"
    by (simp add: handleEditableRowChange_def)
  show "duplicateSuggestions (handleEditableRowChange k patch st) = duplicateSuggestions st"
    by (simp add: handleEditableRowChange_def)
qed

lemma patch_duplicate_action_keeps_target:
  "merge_item_id (patch_duplicate_action a row) = merge_item_id row"
  by (simp add: patch_duplicate_action_def)

lemma built_payload_target_ordered:
  assumes "\<forall>j<length suggestions. import_index (suggestions ! j) = int j"
      and "i < length rows"
      and "merge_item_id (rows ! i) =
             (case suggestionsByIndex suggestions (int i) of
                Some s \<Rightarrow> recommended_merge_item_id s | None \<Rightarrow> None)"
  shows "p_merge_item_id (payloadItems rows suggestions ! i) =
           (case suggestionsByIndex suggestions (int i) of
              Some s \<Rightarrow> recommended_merge_item_id s | None \<Rightarrow> None)"
  using payloadItems_nth(2) [OF assms(2), of suggestions]
    suggestionsByIndex_ordered [OF assms(1), of i] assms(3)
  by (auto split: if_splits)

lemma edited_payload_target_ordered:
  assumes "\<forall>j<length suggestions. import_index (suggestions ! j) = int j"
      and "i < length (re_items parsed)"
      and "\<And>row. merge_item_id (patch row) = merge_item_id row"
  shows "p_merge_item_id
           (payloadItems
              (editableRows (handleEditableRowChange k patch
                 (parseImport_onSuccess show_num parsed suggestions st)))
              (duplicateSuggestions (handleEditableRowChange k patch
                 (parseImport_onSuccess show_num parsed suggestions st))) ! i) =
         (case suggestionsByIndex suggestions (int i) of
            Some s \<Rightarrow> recommended_merge_item_id s | None \<Rightarrow> None)"
proof -
  let ?st = "parseImport_onSuccess show_num parsed suggestions st"
  let ?st' = "handleEditableRowChange k patch ?st"
  have rows: "editableRows ?st = parseImport_rows show_num parsed suggestions"
    and suggs: "duplicateSuggestions ?st = suggestions"
    by (simp_all add: parseImport_onSuccess_def)
  have keep: "map merge_item_id (editableRows ?st') = map merge_item_id (editableRows ?st)"
    using handleEditableRowChange_keeps_targets(1) [of patch k ?st] assms(3) by simp
  then have "length (editableRows ?st') = length (editableRows ?st)"
    using map_eq_imp_length_eq by blast
  then have len: "i < length (editableRows ?st')"
    using assms(2) by (simp add: rows parseImport_rows_length)
  have "merge_item_id (editableRows ?st' ! i) = map merge_item_id (editableRows ?st') ! i"
    using len by simp
  also have "\<dots> = merge_item_id (editableRows ?st ! i)"
    using keep assms(2) by (simp add: rows parseImport_rows_length)
  also have "\<dots> = (case suggestionsByIndex suggestions (int i) of
            Some s \<Rightarrow> recommended_merge_item_id s | None \<Rightarrow> None)"
    using parseImport_rows_nth(2) [OF assms(2), of show_num suggestions] by (simp add: rows)
  finally have built: "merge_item_id (editableRows ?st' ! i) =
      (case suggestionsByIndex suggestions (int i) of
         Some s \<Rightarrow> recommended_merge_item_id s | None \<Rightarrow> None)" .
  have "duplicateSuggestions ?st' = suggestions"
    using handleEditableRowChange_keeps_targets(2) [of patch k ?st] assms(3) suggs by simp
  with built_payload_target_ordered [OF assms(1) len built] show ?thesis by simp
qed



subsection \<open>The commit reconciler\<close>

text \<open>Validation passes exactly when no row fails a check.\<close>

lemma first_error_None_iff:
  "first_error check xs = None \<longleftrightarrow> (\<forall>x \<in> set xs. check x = None)"
  by (induction xs) (auto split: option.splits)

lemma validate_Inr_iff:
  "validate cfg store ds = Inr u \<longleftrightarrow>
     (\<forall>row \<in> set (enumerate 0 ds). check_review row = None \<and> check_row cfg store row = None)"
proof -
  have a: "first_error check_review (enumerate 0 ds) = None \<longleftrightarrow>
      (\<forall>row \<in> set (enumerate 0 ds). check_review row = None)"
    by (rule first_error_None_iff)
  have b: "first_error (check_row cfg store) (enumerate 0 ds) = None \<longleftrightarrow>
      (\<forall>row \<in> set (enumerate 0 ds). check_row cfg store row = None)"
    by (rule first_error_None_iff)
  show ?thesis
  proof (cases "first_error check_review (enumerate 0 ds)")
    case None
    note r = this
    show ?thesis
    proof (cases "first_error (check_row cfg store) (enumerate 0 ds)")
      case None
      with r a b show ?thesis by (simp add: validate_def)
    next
      case (Some e)
      with r a b show ?thesis by (auto simp: validate_def)
    qed
  next
    case (Some e)
    with a show ?thesis by (auto simp: validate_def)
  qed
qed

text \<open>Looking a record up after one decision, and after a run of decisions.\<close>

lemma lookup_None_iff: "lookup store t = None \<longleftrightarrow> t \<notin> rec_id ` set store"
  by (auto simp: lookup_def find_None_iff)

lemma rec_id_merge_into [simp]: "rec_id (merge_into q r) = rec_id r"
  by (simp add: merge_into_def)

lemma lookup_append:
  "lookup (xs @ ys) t = (case lookup xs t of Some r \<Rightarrow> Some r | None \<Rightarrow> lookup ys t)"
  by (induction xs) (simp_all add: lookup_def)

lemma lookup_merge:
  "lookup (map (\<lambda>x. if rec_id x = t then merge_into q x else x) store) u =
     (if u = t then map_option (merge_into q) (lookup store t) else lookup store u)"
  by (induction store) (auto simp: lookup_def)

lemma apply_decision_lookup:
  assumes "apply_decision cfg store row = Inr (store', u)" and "lookup store t = Some r"
  shows "lookup store' t =
           Some (if targets cfg t row then merge_into (d_quantity (snd row)) r else r)"
proof (cases row)
  case (Pair i d)
  show ?thesis
  proof (cases "d_duplicate_action d")
    case Review
    with assms Pair show ?thesis by (simp add: apply_decision_def)
  next
    case CreateNew
    with assms Pair show ?thesis
      by (auto simp: apply_decision_def lookup_append targets_def is_merge_def)
  next
    case Merge
    with assms Pair show ?thesis
      by (auto simp: apply_decision_def lookup_merge targets_def is_merge_def
          split: option.splits)
  next
    case Auto
    with assms Pair show ?thesis
      by (auto simp: apply_decision_def lookup_merge targets_def is_merge_def
          split: option.splits)
  qed
qed

lemma apply_all_lookup:
  assumes "apply_all cfg store rows = Inr (store', ts)" and "lookup store t = Some r"
  shows "lookup store' t = Some (merge_all cfg t rows r)"
  using assms
proof (induction rows arbitrary: store r ts)
  case Nil
  then show ?case by (simp add: merge_all_def)
next
  case (Cons row rows)
  from Cons.prems(1) obtain s1 u ts1 where
    step: "apply_decision cfg store row = Inr (s1, u)" and
    rest: "apply_all cfg s1 rows = Inr (store', ts1)"
    by (auto split: sum.splits)
  let ?r1 = "if targets cfg t row then merge_into (d_quantity (snd row)) r else r"
  have "lookup s1 t = Some ?r1"
    using apply_decision_lookup [OF step Cons.prems(2)] .
  from Cons.IH [OF rest this] show ?case
    by (simp add: merge_all_def)
qed

lemma apply_all_length:
  "apply_all cfg store rows = Inr (store', ts) \<Longrightarrow> length ts = length rows"
  by (induction rows arbitrary: store ts) (auto split: sum.splits)

text \<open>What the merges of a batch do to one record: its quantity and its status.\<close>

lemma merge_all_quantity:
  "rec_quantity (merge_all cfg t rows r) = rec_quantity r + merged_quantity cfg t rows"
proof (induction rows arbitrary: r)
  case Nil
  show ?case by (simp add: merge_all_def merged_quantity_def)
next
  case (Cons row rows)
  let ?r1 = "if targets cfg t row then merge_into (d_quantity (snd row)) r else r"
  have "merge_all cfg t (row # rows) r = merge_all cfg t rows ?r1"
    by (simp add: merge_all_def)
  moreover have "merged_quantity cfg t (row # rows) =
      (if targets cfg t row then d_quantity (snd row) else 0) + merged_quantity cfg t rows"
    by (simp add: merged_quantity_def)
  moreover have "rec_quantity ?r1 = rec_quantity r + (if targets cfg t row then d_quantity (snd row) else 0)"
    by (simp add: merge_into_def)
  ultimately show ?case using Cons.IH [of ?r1] by simp
qed

lemma merge_into_status:
  "rec_status (merge_into q r) = rec_status r \<or>
   (rec_status r = in_stock \<or> rec_status r = low_stock) \<and>
   (rec_status (merge_into q r) = in_stock \<or> rec_status (merge_into q r) = low_stock)"
  by (cases "rec_status r") (simp_all add: merge_into_def recompute_status_def derive_status_def)

lemma merge_into_frozen:
  "rec_status r = discontinued \<or> rec_status r = ordered \<Longrightarrow>
     rec_status (merge_into q r) = rec_status r"
  by (auto simp: merge_into_def recompute_status_def)

lemma merge_all_status:
  "rec_status (merge_all cfg t rows r) = rec_status r \<or>
   (rec_status r = in_stock \<or> rec_status r = low_stock) \<and>
   (rec_status (merge_all cfg t rows r) = in_stock \<or>
    rec_status (merge_all cfg t rows r) = low_stock)"
proof (induction rows arbitrary: r)
  case Nil
  show ?case by (simp add: merge_all_def)
next
  case (Cons row rows)
  let ?r1 = "if targets cfg t row then merge_into (d_quantity (snd row)) r else r"
  have eq: "merge_all cfg t (row # rows) r = merge_all cfg t rows ?r1"
    by (simp add: merge_all_def)
  have "rec_status ?r1 = rec_status r \<or>
    (rec_status r = in_stock \<or> rec_status r = low_stock) \<and>
    (rec_status ?r1 = in_stock \<or> rec_status ?r1 = low_stock)"
    using merge_into_status [of "d_quantity (snd row)" r] by auto
  with Cons.IH [of ?r1] show ?case unfolding eq by auto
qed

lemma merge_all_untargeted:
  "\<forall>row \<in> set rows. \<not> targets cfg t row \<Longrightarrow> merge_all cfg t rows r = r"
  by (induction rows arbitrary: r) (simp_all add: merge_all_def)

lemma merged_quantity_untargeted:
  "\<forall>row \<in> set rows. \<not> targets cfg t row \<Longrightarrow> merged_quantity cfg t rows = 0"
  by (induction rows) (simp_all add: merged_quantity_def)

lemma merged_quantity_append:
  "merged_quantity cfg t (xs @ ys) = merged_quantity cfg t xs + merged_quantity cfg t ys"
  by (simp add: merged_quantity_def)

lemma merged_quantity_single:
  assumes "i < length ds" and "targets cfg t (i, ds ! i)"
      and "\<forall>j<length ds. j \<noteq> i \<longrightarrow> \<not> targets cfg t (j, ds ! j)"
  shows "merged_quantity cfg t (enumerate 0 ds) = d_quantity (ds ! i)"
proof -
  have split: "ds = take i ds @ ds ! i # drop (Suc i) ds"
    using assms(1) by (rule id_take_nth_drop)
  have "enumerate 0 ds = enumerate 0 (take i ds) @ enumerate i (ds ! i # drop (Suc i) ds)"
    using assms(1) by (subst split) (simp add: enumerate_append_eq min_def)
  then have en: "enumerate 0 ds =
      enumerate 0 (take i ds) @ (i, ds ! i) # enumerate (Suc i) (drop (Suc i) ds)"
    by simp
  have before: "\<forall>row \<in> set (enumerate 0 (take i ds)). \<not> targets cfg t row"
    using assms(1,3) by (auto simp: in_set_enumerate_eq)
  have after: "\<forall>row \<in> set (enumerate (Suc i) (drop (Suc i) ds)). \<not> targets cfg t row"
  proof
    fix row assume "row \<in> set (enumerate (Suc i) (drop (Suc i) ds))"
    then have "Suc i \<le> fst row" "fst row < length (drop (Suc i) ds) + Suc i"
      "drop (Suc i) ds ! (fst row - Suc i) = snd row"
      by (simp_all add: in_set_enumerate_eq)
    then have "Suc i \<le> fst row" "fst row < length ds" "ds ! fst row = snd row"
      by auto
    with assms(3) have "\<not> targets cfg t (fst row, snd row)" by auto
    then show "\<not> targets cfg t row" by simp
  qed
  have "merged_quantity cfg t (enumerate 0 ds) =
      merged_quantity cfg t (enumerate 0 (take i ds)) +
      (merged_quantity cfg t [(i, ds ! i)] +
       merged_quantity cfg t (enumerate (Suc i) (drop (Suc i) ds)))"
    by (subst en) (simp add: merged_quantity_def)
  with merged_quantity_untargeted [OF before] merged_quantity_untargeted [OF after] assms(2)
  show ?thesis by (simp add: merged_quantity_def)
qed

text \<open>
  No decision removes a record, so a batch that passed validation against the store at the
  start is applied to the end: the commit succeeds exactly when validation passes.
\<close>

lemma merge_keeps_ids:
  "rec_id ` set (map (\<lambda>x. if rec_id x = t then merge_into q x else x) store) = rec_id ` set store"
proof -
  have "map rec_id (map (\<lambda>x. if rec_id x = t then merge_into q x else x) store) = map rec_id store"
    by (induction store) simp_all
  then have "set (map rec_id (map (\<lambda>x. if rec_id x = t then merge_into q x else x) store))
      = set (map rec_id store)" by simp
  then show ?thesis by (simp only: set_map)
qed

lemma apply_decision_ids:
  assumes "apply_decision cfg store row = Inr (store', u)"
  shows "rec_id ` set store \<subseteq> rec_id ` set store'"
proof (cases row)
  case (Pair i d)
  show ?thesis
  proof (cases "d_duplicate_action d")
    case Review
    with assms Pair show ?thesis by (simp add: apply_decision_def)
  next
    case CreateNew
    with assms Pair show ?thesis by (auto simp: apply_decision_def)
  next
    case Merge
    with assms Pair have "\<exists>t q. store' = map (\<lambda>x. if rec_id x = t then merge_into q x else x) store"
      by (auto simp: apply_decision_def split: option.splits)
    then show ?thesis using merge_keeps_ids by fastforce
  next
    case Auto
    with assms Pair have "\<exists>t q. store' = map (\<lambda>x. if rec_id x = t then merge_into q x else x) store"
      by (auto simp: apply_decision_def split: option.splits)
    then show ?thesis using merge_keeps_ids by fastforce
  qed
qed

lemma apply_decision_validated:
  assumes "check_review row = None" and "check_row cfg store0 row = None"
      and "rec_id ` set store0 \<subseteq> rec_id ` set store"
  shows "\<exists>store' u. apply_decision cfg store row = Inr (store', u)"
proof (cases row)
  case (Pair i d)
  show ?thesis
  proof (cases "is_merge d")
    case True
    with assms(2) Pair obtain t where t: "resolve_target cfg i d = Some t"
      and "lookup store0 t \<noteq> None"
      by (auto simp: check_row_def split: if_splits option.splits)
    then have "t \<in> rec_id ` set store" using assms(3) by (auto simp: lookup_None_iff)
    then obtain r where "lookup store t = Some r"
      by (cases "lookup store t") (auto simp: lookup_None_iff)
    with t True Pair show ?thesis
      by (auto simp: apply_decision_def is_merge_def)
  next
    case False
    with assms(1) Pair show ?thesis
      by (cases "d_duplicate_action d")
        (auto simp: apply_decision_def is_merge_def check_review_def)
  qed
qed

lemma apply_all_validated:
  assumes "\<forall>row \<in> set rows. check_review row = None \<and> check_row cfg store0 row = None"
      and "rec_id ` set store0 \<subseteq> rec_id ` set store"
  shows "\<exists>store' ts. apply_all cfg store rows = Inr (store', ts)"
  using assms
proof (induction rows arbitrary: store)
  case Nil
  show ?case by simp
next
  case (Cons row rows)
  from Cons.prems obtain s1 u where step: "apply_decision cfg store row = Inr (s1, u)"
    using apply_decision_validated [of row cfg store0 store] by auto
  from apply_decision_ids [OF step] Cons.prems(2)
  have "rec_id ` set store0 \<subseteq> rec_id ` set s1" by blast
  with Cons.IH [of s1] Cons.prems(1) obtain s2 ts where "apply_all cfg s1 rows = Inr (s2, ts)"
    by auto
  with step show ?case by simp
qed

lemma commit_succeeds_iff_valid:
  "(\<exists>store' out. commit cfg store ds = (store', Inr out)) \<longleftrightarrow> validate cfg store ds = Inr ()"
proof
  assume "\<exists>store' out. commit cfg store ds = (store', Inr out)"
  then show "validate cfg store ds = Inr ()"
    by (auto simp: commit_def split: sum.splits)
next
  assume v: "validate cfg store ds = Inr ()"
  then have "\<forall>row \<in> set (enumerate 0 ds).
      check_review row = None \<and> check_row cfg store row = None"
    by (simp add: validate_Inr_iff)
  from apply_all_validated [OF this, of store] obtain s' ts
    where "apply_all cfg store (enumerate 0 ds) = Inr (s', ts)" by auto
  with v show "\<exists>store' out. commit cfg store ds = (store', Inr out)"
    by (simp add: commit_def)
qed

lemma invalid_target_rejected:
  assumes "i < length ds" and "is_merge (ds ! i)"
      and "resolve_target cfg i (ds ! i) = None \<or>
           (\<exists>t. resolve_target cfg i (ds ! i) = Some t \<and> lookup store t = None)"
  shows "\<exists>e. validate cfg store ds = Inl e"
proof -
  have mem: "(i, ds ! i) \<in> set (enumerate 0 ds)"
    using assms(1) by (simp add: in_set_enumerate_eq)
  have "check_row cfg store (i, ds ! i) \<noteq> None"
    using assms(2,3) by (auto simp: check_row_def)
  with mem have "\<not> (\<forall>row \<in> set (enumerate 0 ds).
      check_review row = None \<and> check_row cfg store row = None)" by auto
  then have "validate cfg store ds \<noteq> Inr ()" by (simp add: validate_Inr_iff)
  then show ?thesis by (cases "validate cfg store ds") auto
qed

lemma commit_cases:
  "(case commit cfg store ds of
      (store', Inl e') \<Rightarrow> store' = store
    | (store', Inr out) \<Rightarrow>
        validate cfg store ds = Inr () \<and>
        (\<exists>ts. apply_all cfg store (enumerate 0 ds) = Inr (store', ts) \<and>
              length ts = length ds))"
proof (cases "validate cfg store ds")
  case (Inl e)
  then show ?thesis by (simp add: commit_def)
next
  case (Inr u)
  show ?thesis
  proof (cases "apply_all cfg store (enumerate 0 ds)")
    case (Inl e)
    with Inr show ?thesis by (simp add: commit_def)
  next
    case (Inr res)
    obtain s' ts where res: "res = (s', ts)" by (cases res)
    with Inr have "length ts = length ds" using apply_all_length [of cfg store "enumerate 0 ds" s' ts]
      by simp
    with Inr res \<open>validate cfg store ds = Inr u\<close> show ?thesis by (simp add: commit_def)
  qed
qed

text \<open>
  C2. A batch that fails validation, for example a batch with a merge or auto decision
  whose target is missing or is not a record of the store, leaves the store as it was; and
  whatever the batch, the commit either fails with the store it started from or succeeds
  with every decision of the batch applied.
\<close>

theorem commit_atomicity:
  "(validate cfg store ds = Inl e \<longrightarrow> commit cfg store ds = (store, Inl e)) \<and>
   (i < length ds \<and> is_merge (ds ! i) \<and>
      (resolve_target cfg i (ds ! i) = None \<or>
       (\<exists>t. resolve_target cfg i (ds ! i) = Some t \<and> lookup store t = None))
    \<longrightarrow> (\<exists>e'. commit cfg store ds = (store, Inl e'))) \<and>
   (case commit cfg store ds of
      (store', Inl e') \<Rightarrow> store' = store
    | (store', Inr out) \<Rightarrow>
        validate cfg store ds = Inr () \<and>
        (\<exists>ts. apply_all cfg store (enumerate 0 ds) = Inr (store', ts) \<and>
              length ts = length ds))"
proof (intro conjI impI)
  assume "validate cfg store ds = Inl e"
  then show "commit cfg store ds = (store, Inl e)" by (simp add: commit_def)
next
  assume "i < length ds \<and> is_merge (ds ! i) \<and>
      (resolve_target cfg i (ds ! i) = None \<or>
       (\<exists>t. resolve_target cfg i (ds ! i) = Some t \<and> lookup store t = None))"
  then obtain e' where "validate cfg store ds = Inl e'"
    using invalid_target_rejected [of i ds cfg store] by blast
  then show "\<exists>e'. commit cfg store ds = (store, Inl e')" by (simp add: commit_def)
next
  show "case commit cfg store ds of
      (store', Inl e') \<Rightarrow> store' = store
    | (store', Inr out) \<Rightarrow>
        validate cfg store ds = Inr () \<and>
        (\<exists>ts. apply_all cfg store (enumerate 0 ds) = Inr (store', ts) \<and>
              length ts = length ds)"
    by (rule commit_cases)
qed

text \<open>
  The theorem at a batch of two decisions against a store that holds record 7: the second
  decision merges into record 9, which does not exist, and nothing of the first is kept.
\<close>

lemma example_validate:
  "validate example_config [example_record in_stock]
     [example_decision CreateNew None, example_decision Merge (Some 9)] =
   Inl (InvalidMergeTargetError 1)"
  by (simp add: validate_def check_review_def check_row_def example_decision_def
      example_config_def example_record_def is_merge_def resolve_target_def lookup_def)

theorem commit_atomicity_witness:
  "validate example_config [example_record in_stock]
     [example_decision CreateNew None, example_decision Merge (Some 9)] =
     Inl (InvalidMergeTargetError 1) \<and>
   (1::nat) < length [example_decision CreateNew None, example_decision Merge (Some 9)] \<and>
   is_merge ([example_decision CreateNew None, example_decision Merge (Some 9)] ! 1) \<and>
   resolve_target example_config 1
     ([example_decision CreateNew None, example_decision Merge (Some 9)] ! 1) = Some 9 \<and>
   lookup [example_record in_stock] 9 = None \<and>
   commit example_config [example_record in_stock]
     [example_decision CreateNew None, example_decision Merge (Some 9)] =
     ([example_record in_stock], Inl (InvalidMergeTargetError 1))"
proof -
  have facts: "is_merge ([example_decision CreateNew None, example_decision Merge (Some 9)] ! 1)"
    "resolve_target example_config 1
       ([example_decision CreateNew None, example_decision Merge (Some 9)] ! 1) = Some 9"
    "lookup [example_record in_stock] 9 = None"
    by (simp_all add: is_merge_def resolve_target_def lookup_def example_decision_def
        example_record_def)
  from commit_atomicity [of example_config "[example_record in_stock]"
      "[example_decision CreateNew None, example_decision Merge (Some 9)]"
      "InvalidMergeTargetError 1" 1] example_validate facts
  show ?thesis by simp
qed

lemma commit_lookup:
  assumes "commit cfg store ds = (store', Inr out)" and "lookup store t = Some r"
  shows "lookup store' t = Some (merge_all cfg t (enumerate 0 ds) r)"
proof -
  from assms(1) obtain ts where "apply_all cfg store (enumerate 0 ds) = Inr (store', ts)"
    by (auto simp: commit_def split: sum.splits)
  from apply_all_lookup [OF this assms(2)] show ?thesis .
qed

lemma commit_quantities_valid:
  assumes "commit cfg store ds = (store', Inr out)" and "i < length ds"
  shows "0 \<le> d_quantity (ds ! i)"
proof -
  from assms(1) have "validate cfg store ds = Inr ()"
    by (auto simp: commit_def split: sum.splits)
  moreover have "(i, ds ! i) \<in> set (enumerate 0 ds)"
    using assms(2) by (simp add: in_set_enumerate_eq)
  ultimately have "check_row cfg store (i, ds ! i) = None"
    by (auto simp: validate_Inr_iff)
  then show ?thesis by (auto simp: check_row_def split: if_splits)
qed

text \<open>
  C3. When a committed batch merges one candidate of quantity \<open>q\<close> into the existing
  record \<open>t\<close> of quantity \<open>r\<close> (no other decision of the batch targets \<open>t\<close>), the
  committed record \<open>t\<close> has quantity exactly \<open>r + q\<close>, which is not negative when
  \<open>r\<close> is not; and every record that no decision of the batch targets is as it was.
\<close>

theorem merge_correct:
  assumes "commit cfg store ds = (store', Inr out)"
      and "i < length ds" and "is_merge (ds ! i)"
      and "resolve_target cfg i (ds ! i) = Some t"
      and "\<forall>j<length ds. j \<noteq> i \<longrightarrow> \<not> targets cfg t (j, ds ! j)"
      and "lookup store t = Some r" and "0 \<le> rec_quantity r"
  shows "(\<exists>r'. lookup store' t = Some r' \<and>
               rec_quantity r' = rec_quantity r + d_quantity (ds ! i) \<and>
               0 \<le> rec_quantity r') \<and>
         (\<forall>u x. lookup store u = Some x \<and> (\<forall>j<length ds. \<not> targets cfg u (j, ds ! j))
               \<longrightarrow> lookup store' u = Some x)"
proof
  have hit: "targets cfg t (i, ds ! i)" using assms(3,4) by (simp add: targets_def)
  have q: "merged_quantity cfg t (enumerate 0 ds) = d_quantity (ds ! i)"
    using merged_quantity_single [OF assms(2) hit assms(5)] .
  have "lookup store' t = Some (merge_all cfg t (enumerate 0 ds) r)"
    using commit_lookup [OF assms(1,6)] .
  moreover have "rec_quantity (merge_all cfg t (enumerate 0 ds) r) =
      rec_quantity r + d_quantity (ds ! i)"
    by (simp add: merge_all_quantity q)
  moreover have "0 \<le> d_quantity (ds ! i)"
    using commit_quantities_valid [OF assms(1,2)] .
  ultimately show "\<exists>r'. lookup store' t = Some r' \<and>
              rec_quantity r' = rec_quantity r + d_quantity (ds ! i) \<and>
              0 \<le> rec_quantity r'"
    using assms(7) by simp
  show "\<forall>u x. lookup store u = Some x \<and> (\<forall>j<length ds. \<not> targets cfg u (j, ds ! j))
              \<longrightarrow> lookup store' u = Some x"
  proof (intro allI impI)
    fix u x
    assume h: "lookup store u = Some x \<and> (\<forall>j<length ds. \<not> targets cfg u (j, ds ! j))"
    then have "\<forall>row \<in> set (enumerate 0 ds). \<not> targets cfg u row"
      by (auto simp: in_set_enumerate_eq)
    from merge_all_untargeted [OF this] commit_lookup [OF assms(1), of u x] h
    show "lookup store' u = Some x" by simp
  qed
qed

text \<open>
  The theorem at a batch that creates a record and merges 2 into record 7, which holds 3.
\<close>

lemma example_commit_auto:
  "commit example_config [example_record low_stock]
     [example_decision CreateNew None, example_decision Auto (Some 7)] =
   ([(example_record low_stock)\<lparr>rec_quantity := 5\<rparr>,
     new_record example_config [example_record low_stock] (example_decision CreateNew None)],
    Inr [new_record example_config [example_record low_stock] (example_decision CreateNew None),
         (example_record low_stock)\<lparr>rec_quantity := 5\<rparr>])"
  by (simp add: commit_def validate_def check_review_def check_row_def example_decision_def
      example_config_def example_record_def is_merge_def resolve_target_def lookup_def
      apply_decision_def merge_into_def recompute_status_def derive_status_def
      new_record_def fresh_id_def affected_def List.map_filter_def)

theorem merge_correct_witness:
  "commit example_config [example_record low_stock]
     [example_decision CreateNew None, example_decision Auto (Some 7)] =
   ([(example_record low_stock)\<lparr>rec_quantity := 5\<rparr>,
     new_record example_config [example_record low_stock] (example_decision CreateNew None)],
    Inr [new_record example_config [example_record low_stock] (example_decision CreateNew None),
         (example_record low_stock)\<lparr>rec_quantity := 5\<rparr>]) \<and>
   (1::nat) < length [example_decision CreateNew None, example_decision Auto (Some 7)] \<and>
   is_merge ([example_decision CreateNew None, example_decision Auto (Some 7)] ! 1) \<and>
   resolve_target example_config 1
     ([example_decision CreateNew None, example_decision Auto (Some 7)] ! 1) = Some 7 \<and>
   \<not> targets example_config 7
       (0, [example_decision CreateNew None, example_decision Auto (Some 7)] ! 0) \<and>
   lookup [example_record low_stock] 7 = Some (example_record low_stock) \<and>
   0 \<le> rec_quantity (example_record low_stock) \<and>
   (\<exists>r'. lookup [(example_record low_stock)\<lparr>rec_quantity := 5\<rparr>,
             new_record example_config [example_record low_stock]
               (example_decision CreateNew None)] 7 = Some r' \<and>
         rec_quantity r' = 3 + 2 \<and> 0 \<le> rec_quantity r')"
proof -
  let ?ds = "[example_decision CreateNew None, example_decision Auto (Some 7)]"
  have h2: "(1::nat) < length ?ds" by simp
  have h3: "is_merge (?ds ! 1)" by (simp add: is_merge_def example_decision_def)
  have h4: "resolve_target example_config 1 (?ds ! 1) = Some 7"
    by (simp add: resolve_target_def example_decision_def)
  have h5: "\<forall>j<length ?ds. j \<noteq> 1 \<longrightarrow> \<not> targets example_config 7 (j, ?ds ! j)"
    by (simp add: targets_def is_merge_def example_decision_def less_Suc_eq)
  have h6: "lookup [example_record low_stock] 7 = Some (example_record low_stock)"
    by (simp add: lookup_def example_record_def)
  have h7: "0 \<le> rec_quantity (example_record low_stock)"
    by (simp add: example_record_def)
  have q: "rec_quantity (example_record low_stock) + d_quantity (?ds ! 1) = 3 + 2"
    by (simp add: example_record_def example_decision_def)
  from merge_correct [OF example_commit_auto h2 h3 h4 h5 h6 h7] q
  have "\<exists>r'. lookup [(example_record low_stock)\<lparr>rec_quantity := 5\<rparr>,
             new_record example_config [example_record low_stock]
               (example_decision CreateNew None)] 7 = Some r' \<and>
         rec_quantity r' = 3 + 2 \<and> 0 \<le> rec_quantity r'"
    by (simp only:)
  moreover have "\<not> targets example_config 7 (0, ?ds ! 0)"
    by (simp add: targets_def is_merge_def example_decision_def)
  ultimately show ?thesis using example_commit_auto h2 h3 h4 h6 h7 by blast
qed

text \<open>
  C6. After a committed batch, a record has the quantity it had plus the quantities merged
  into it; a record that was \<^verbatim>\<open>discontinued\<close> or \<^verbatim>\<open>ordered\<close> still has that status;
  and a status that changed was \<^verbatim>\<open>in_stock\<close> or \<^verbatim>\<open>low_stock\<close> and is \<^verbatim>\<open>in_stock\<close> or
  \<^verbatim>\<open>low_stock\<close>.
\<close>

theorem merge_keeps_status:
  assumes "commit cfg store ds = (store', Inr out)" and "lookup store t = Some r"
  shows "\<exists>r'. lookup store' t = Some r' \<and>
              rec_quantity r' = rec_quantity r + merged_quantity cfg t (enumerate 0 ds) \<and>
              (rec_status r = discontinued \<or> rec_status r = ordered
                 \<longrightarrow> rec_status r' = rec_status r) \<and>
              (rec_status r' \<noteq> rec_status r
                 \<longrightarrow> (rec_status r = in_stock \<or> rec_status r = low_stock) \<and>
                     (rec_status r' = in_stock \<or> rec_status r' = low_stock))"
proof -
  let ?r' = "merge_all cfg t (enumerate 0 ds) r"
  have "lookup store' t = Some ?r'" using commit_lookup [OF assms] .
  moreover have "rec_quantity ?r' = rec_quantity r + merged_quantity cfg t (enumerate 0 ds)"
    by (rule merge_all_quantity)
  moreover have "rec_status ?r' = rec_status r \<or>
      (rec_status r = in_stock \<or> rec_status r = low_stock) \<and>
      (rec_status ?r' = in_stock \<or> rec_status ?r' = low_stock)"
    by (rule merge_all_status)
  ultimately show ?thesis by auto
qed

text \<open>The theorem at a merge of 2 into the discontinued record 7, which holds 3.\<close>

lemma example_commit_discontinued:
  "commit example_config [example_record discontinued] [example_decision Merge (Some 7)] =
   ([(example_record discontinued)\<lparr>rec_quantity := 5\<rparr>],
    Inr [(example_record discontinued)\<lparr>rec_quantity := 5\<rparr>])"
  by (simp add: commit_def validate_def check_review_def check_row_def example_decision_def
      example_config_def example_record_def is_merge_def resolve_target_def lookup_def
      apply_decision_def merge_into_def recompute_status_def derive_status_def
      affected_def List.map_filter_def)

theorem merge_keeps_status_witness:
  "commit example_config [example_record discontinued] [example_decision Merge (Some 7)] =
   ([(example_record discontinued)\<lparr>rec_quantity := 5\<rparr>],
    Inr [(example_record discontinued)\<lparr>rec_quantity := 5\<rparr>]) \<and>
   lookup [example_record discontinued] 7 = Some (example_record discontinued) \<and>
   rec_status (example_record discontinued) = discontinued \<and>
   (\<exists>r'. lookup [(example_record discontinued)\<lparr>rec_quantity := 5\<rparr>] 7 = Some r' \<and>
         rec_quantity r' = 3 + 2 \<and> rec_status r' = discontinued)"
proof -
  have h2: "lookup [example_record discontinued] 7 = Some (example_record discontinued)"
    by (simp add: lookup_def example_record_def)
  have s: "rec_status (example_record discontinued) = discontinued"
    by (simp add: example_record_def)
  have q: "rec_quantity (example_record discontinued) +
      merged_quantity example_config 7 (enumerate 0 [example_decision Merge (Some 7)]) = 3 + 2"
    by (simp add: example_record_def merged_quantity_def targets_def is_merge_def
        resolve_target_def example_decision_def)
  from merge_keeps_status [OF example_commit_discontinued h2] s q
  have "\<exists>r'. lookup [(example_record discontinued)\<lparr>rec_quantity := 5\<rparr>] 7 = Some r' \<and>
         rec_quantity r' = 3 + 2 \<and> rec_status r' = discontinued"
    by auto
  with example_commit_discontinued h2 s show ?thesis by blast
qed


end
